theory Spec2Isabelle
  imports Main "HOL-Library.AList" "HOL-Library.Sublist"
begin

section \<open>Values, objects and the heap\<close>

text \<open>
  The two families of generated constructors of \<^verbatim>\<open>src/index.ts\<close>: the function
  \<^verbatim>\<open>ClientError\<close> returned by \<^verbatim>\<open>createClientErrorConstructor\<close> and the
  function \<^verbatim>\<open>ServerError\<close> returned by \<^verbatim>\<open>createServerErrorConstructor\<close>. Each
  closes over its \<^verbatim>\<open>className\<close> and its \<^verbatim>\<open>code\<close>.
\<close>

datatype ctor = ClientError string int | ServerError string int

fun className :: "ctor \<Rightarrow> string" where
  "className (ClientError n c) = n"
| "className (ServerError n c) = n"

fun code :: "ctor \<Rightarrow> int" where
  "code (ClientError n c) = c"
| "code (ServerError n c) = c"

text \<open>
  Function values: the host's \<^verbatim>\<open>Error\<close>, the abstract \<^verbatim>\<open>HttpError\<close> of
  \<^verbatim>\<open>createHttpErrorConstructor\<close>, a generated constructor, or any other function.
\<close>

datatype fn = ErrorFn | HttpErrorFn | CodeErrorFn ctor | OtherFn nat

type_synonym ref = nat

text \<open>
  Numbers: the integers, which is what status codes are, and \<^verbatim>\<open>NaN\<close>, the one number
  that is neither below nor at least any bound and is not equal to itself. Fractions and
  the infinities are not encoded; each of them is below 400, at least 600, or in between,
  as an integer is. Nor are the integers that \<^verbatim>\<open>String\<close> renders with an exponent.
\<close>

datatype number = Integer int | NaN

text \<open>The comparisons \<^verbatim>\<open>x < k\<close> and \<^verbatim>\<open>x >= k\<close>, both false for \<^verbatim>\<open>NaN\<close>.\<close>

fun num_lt :: "number \<Rightarrow> int \<Rightarrow> bool" where
  "num_lt (Integer n) k = (n < k)"
| "num_lt NaN k = False"

fun num_ge :: "number \<Rightarrow> int \<Rightarrow> bool" where
  "num_ge (Integer n) k = (n \<ge> k)"
| "num_ge NaN k = False"

text \<open>
  Run-time values. Objects live in the heap and are named by references, so that identity
  and in-place mutation are visible.
\<close>

datatype jsval =
    Undefined
  | Null
  | Bool bool
  | Num number
  | Str string
  | BigInt int
  | Symbol string
  | Fn fn
  | Ref ref

fun typeof :: "jsval \<Rightarrow> string" where
  "typeof Undefined = ''undefined''"
| "typeof Null = ''object''"
| "typeof (Bool b) = ''boolean''"
| "typeof (Num n) = ''number''"
| "typeof (Str s) = ''string''"
| "typeof (BigInt n) = ''bigint''"
| "typeof (Symbol s) = ''symbol''"
| "typeof (Fn f) = ''function''"
| "typeof (Ref r) = ''object''"

text \<open>Strict equality \<^verbatim>\<open>a === b\<close>: \<^verbatim>\<open>NaN\<close> is not equal to itself.\<close>

definition strict_eq :: "jsval \<Rightarrow> jsval \<Rightarrow> bool" where
  "strict_eq a b = (a = b \<and> a \<noteq> Num NaN)"

text \<open>
  The prototype an object was created with: \<^verbatim>\<open>Object.prototype\<close> (anything that is
  not an error), \<^verbatim>\<open>Error.prototype\<close>, \<^verbatim>\<open>HttpError.prototype\<close> or the prototype of
  a generated constructor. \<^verbatim>\<open>inherits(ClientError, HttpError)\<close> and
  \<^verbatim>\<open>inherits(HttpError, Error)\<close> fix the chains.
\<close>

datatype proto = ObjectProto | ErrorProto | HttpErrorProto | CodeErrorProto ctor

fun proto_chain :: "proto \<Rightarrow> fn list" where
  "proto_chain ObjectProto = []"
| "proto_chain ErrorProto = [ErrorFn]"
| "proto_chain HttpErrorProto = [HttpErrorFn, ErrorFn]"
| "proto_chain (CodeErrorProto K) = [CodeErrorFn K, HttpErrorFn, ErrorFn]"

text \<open>
  Properties found on the prototypes. \<^verbatim>\<open>ClientError.prototype\<close> carries
  \<^verbatim>\<open>status = code\<close>, \<^verbatim>\<open>statusCode = code\<close>, \<^verbatim>\<open>expose = true\<close>;
  \<^verbatim>\<open>ServerError.prototype\<close> the same with \<^verbatim>\<open>expose = false\<close>;
  \<^verbatim>\<open>Error.prototype\<close> carries \<^verbatim>\<open>name\<close> and \<^verbatim>\<open>message\<close>. Methods
  (\<^verbatim>\<open>constructor\<close>, \<^verbatim>\<open>toString\<close>) and the stack trace are not modelled.
\<close>

definition Error_prototype_get :: "string \<Rightarrow> jsval" where
  "Error_prototype_get k =
     (if k = ''name'' then Str ''Error'' else if k = ''message'' then Str [] else Undefined)"

fun proto_get :: "proto \<Rightarrow> string \<Rightarrow> jsval" where
  "proto_get ObjectProto k = Undefined"
| "proto_get ErrorProto k = Error_prototype_get k"
| "proto_get HttpErrorProto k = Error_prototype_get k"
| "proto_get (CodeErrorProto (ClientError n c)) k =
     (if k = ''status'' then Num (Integer c)
      else if k = ''statusCode'' then Num (Integer c)
      else if k = ''expose'' then Bool True
      else Error_prototype_get k)"
| "proto_get (CodeErrorProto (ServerError n c)) k =
     (if k = ''status'' then Num (Integer c)
      else if k = ''statusCode'' then Num (Integer c)
      else if k = ''expose'' then Bool False
      else Error_prototype_get k)"

text \<open>
  An object: its prototype, its own properties, whether it is extensible (accepts new
  own properties), and the keys that are read-only on it: an own data property that is
  not writable, an own accessor with a getter and no setter, whose entry in \<open>own\<close> is
  what the getter returns, or such a property inherited from an object of its prototype
  chain that this model does not list. \<^verbatim>\<open>Object.freeze\<close> leaves an object not
  extensible with every own key read-only. Setters and proxies are not modelled.
\<close>

record obj =
  proto :: proto
  own :: "(string \<times> jsval) list"
  extensible :: bool
  readonly :: "string list"

record heap =
  cells :: "ref \<Rightarrow> obj"
  next_ref :: ref

definition alloc :: "obj \<Rightarrow> heap \<Rightarrow> ref \<times> heap" where
  "alloc ob h = (next_ref h, h\<lparr>cells := (cells h)(next_ref h := ob), next_ref := Suc (next_ref h)\<rparr>)"

text \<open>Reading \<^verbatim>\<open>o[k]\<close>: own properties first, then the prototype chain.\<close>

definition get_prop :: "heap \<Rightarrow> ref \<Rightarrow> string \<Rightarrow> jsval" where
  "get_prop h r k =
     (case map_of (own (cells h r)) k of
        Some v \<Rightarrow> v
      | None \<Rightarrow> proto_get (proto (cells h r)) k)"

text \<open>Storing \<open>v\<close> under the own key \<open>k\<close>: the object named by the reference changes in place.\<close>

definition set_prop :: "heap \<Rightarrow> ref \<Rightarrow> string \<Rightarrow> jsval \<Rightarrow> heap" where
  "set_prop h r k v =
     h\<lparr>cells := (cells h)(r := (cells h r)\<lparr>own := AList.update k v (own (cells h r))\<rparr>)\<rparr>"

text \<open>\<^verbatim>\<open>v instanceof F\<close> for a function \<^verbatim>\<open>F\<close>.\<close>

definition instance_of :: "heap \<Rightarrow> jsval \<Rightarrow> fn \<Rightarrow> bool" where
  "instance_of h v f =
     (case v of Ref r \<Rightarrow> f \<in> set (proto_chain (proto (cells h r))) | _ \<Rightarrow> False)"

text \<open>The nullish coalescing operator \<^verbatim>\<open>a ?? b\<close>.\<close>

definition nullish :: "jsval \<Rightarrow> bool" where
  "nullish v = (v = Undefined \<or> v = Null)"

definition coalesce :: "jsval \<Rightarrow> jsval \<Rightarrow> jsval" where
  "coalesce a b = (if nullish a then b else a)"

text \<open>
  How a call can end other than by returning: with the \<^verbatim>\<open>TypeError\<close> that
  \<^verbatim>\<open>createError\<close> throws itself, with its message, or with one of the two
  \<^verbatim>\<open>TypeError\<close>s of the host, for \<^verbatim>\<open>instanceof\<close> with a right operand that is not a
  function and for an assignment that cannot be carried out. The last value,
  \<open>PrototypeAssigned\<close>, is not a raise of the program: under the key \<^verbatim>\<open>__proto__\<close> the
  host does not store a property but replaces the prototype of the object, objects
  whose prototype changes are not encoded, and a run that reaches such an assignment
  is cut there. The statements below speak of runs that return or that raise a
  \<^verbatim>\<open>TypeError\<close>, so they say nothing about what the program does after it.
\<close>

datatype error =
    TypeError string
  | InstanceofTypeError
  | AssignTypeError
  | PrototypeAssigned

text \<open>
  The assignment \<^verbatim>\<open>o[k] = v\<close>. It is carried out when \<open>k\<close> is not read-only and is
  an own key already or the object is extensible (the properties of the prototypes
  that \<^const>\<open>proto_get\<close> lists are all writable). Otherwise strict mode code raises a
  \<^verbatim>\<open>TypeError\<close> and other code goes on with nothing written. The file is a module,
  and module code is strict; a build that turns it into a script without the directive
  runs it as non-strict code, so the mode is a parameter.
\<close>

definition writable :: "obj \<Rightarrow> string \<Rightarrow> bool" where
  "writable ob k =
     (k \<notin> set (readonly ob) \<and> (map_of (own ob) k \<noteq> None \<or> extensible ob))"

definition assign :: "bool \<Rightarrow> heap \<Rightarrow> ref \<Rightarrow> string \<Rightarrow> jsval \<Rightarrow> error + heap" where
  "assign strict_mode h r k v =
     (if k = ''__proto__'' then Inl PrototypeAssigned
      else if writable (cells h r) k then Inr (set_prop h r k v)
      else if strict_mode then Inl AssignTypeError
      else Inr h)"

section \<open>Numbers as strings\<close>

text \<open>
  \<^verbatim>\<open>String(n)\<close>: for an integer its decimal numeral, with a minus sign when negative; for
  \<^verbatim>\<open>NaN\<close> the text \<^verbatim>\<open>NaN\<close>.
\<close>

definition digit_char :: "nat \<Rightarrow> char" where
  "digit_char d = ''0123456789'' ! (d mod 10)"

fun string_of_nat :: "nat \<Rightarrow> string" where
  "string_of_nat n =
     (if n < 10 then [digit_char n] else string_of_nat (n div 10) @ [digit_char (n mod 10)])"

declare string_of_nat.simps [simp del]

definition String_int :: "int \<Rightarrow> string" where
  "String_int n = (if n < 0 then CHR ''-'' # string_of_nat (nat (- n)) else string_of_nat (nat n))"

definition String_num :: "number \<Rightarrow> string" where
  "String_num n = (case n of Integer i \<Rightarrow> String_int i | NaN \<Rightarrow> ''NaN'')"

text \<open>
  \<^verbatim>\<open>Number(c + '00')\<close> for a single character \<^verbatim>\<open>c\<close> that starts the string of a
  number: a digit \<^verbatim>\<open>d\<close> gives \<^verbatim>\<open>d00\<close>, the minus sign gives \<^verbatim>\<open>-0\<close>, which is
  the key \<^verbatim>\<open>0\<close>, and the \<^verbatim>\<open>N\<close> of \<^verbatim>\<open>NaN\<close> gives \<^verbatim>\<open>NaN\<close>.
\<close>

definition Number_c00 :: "char \<Rightarrow> number" where
  "Number_c00 c =
     (case map_of (zip ''0123456789'' [0, 100, 200, 300, 400, 500, 600, 700, 800, 900]) c of
        Some n \<Rightarrow> Integer n
      | None \<Rightarrow> if c = CHR ''-'' then Integer 0 else NaN)"

definition codeClass :: "number \<Rightarrow> number" where
  "codeClass status = Number_c00 (hd (String_num status))"

section \<open>Class names\<close>

text \<open>\<^verbatim>\<open>name.slice(-5)\<close> is the last five characters, or all of a shorter name.\<close>

definition toClassName :: "string \<Rightarrow> string" where
  "toClassName name =
     (if drop (length name - 5) name \<noteq> ''Error'' then name @ ''Error'' else name)"

section \<open>The status registry and the identifier deriver\<close>

text \<open>
  Modelled from the spec: the packages \<^verbatim>\<open>statuses-es\<close> and \<^verbatim>\<open>toidentifier\<close> are
  imported by \<^verbatim>\<open>src/index.ts\<close> and are not part of the repository. The spec (section 6)
  gives them as \<^verbatim>\<open>message: mapping<int, string>\<close>, the reason phrase of each known
  code, with \<^verbatim>\<open>codes\<close> the set of known codes, and
  \<^verbatim>\<open>toIdentifier(phrase: string) -> string\<close>. Both are parameters of everything below;
  a code is known when it has a reason phrase. The third parameter is the mode the build
  runs the file in, strict or not.
\<close>

record deps =
  statuses_message :: "(int \<times> string) list"
  toIdentifier :: "string \<Rightarrow> string"
  strict :: bool

definition statuses_codes :: "deps \<Rightarrow> int list" where
  "statuses_codes d = map fst (statuses_message d)"

text \<open>
  \<^verbatim>\<open>statuses.message[code]\<close>, which is \<^verbatim>\<open>undefined\<close> for an unknown code; the keys
  of the table are integers, so \<^verbatim>\<open>NaN\<close> is not among them.
\<close>

definition message_of :: "deps \<Rightarrow> number \<Rightarrow> jsval" where
  "message_of d n =
     (case n of
        Integer c \<Rightarrow>
          (case map_of (statuses_message d) c of Some p \<Rightarrow> Str p | None \<Rightarrow> Undefined)
      | NaN \<Rightarrow> Undefined)"

text \<open>\<^verbatim>\<open>String(status) in statuses.message\<close>.\<close>

definition known :: "deps \<Rightarrow> number \<Rightarrow> bool" where
  "known d n =
     (case n of Integer c \<Rightarrow> map_of (statuses_message d) c \<noteq> None | NaN \<Rightarrow> False)"

section \<open>Constructors and their registration\<close>

definition createClientErrorConstructor :: "string \<Rightarrow> int \<Rightarrow> ctor" where
  "createClientErrorConstructor name c = ClientError (toClassName name) c"

definition createServerErrorConstructor :: "string \<Rightarrow> int \<Rightarrow> ctor" where
  "createServerErrorConstructor name c = ServerError (toClassName name) c"

text \<open>
  \<^verbatim>\<open>new CodeError(message)\<close>: a fresh object whose prototype is the constructor's, with
  own properties \<^verbatim>\<open>message\<close> and \<^verbatim>\<open>name\<close>.
\<close>

definition new_CodeError :: "deps \<Rightarrow> ctor \<Rightarrow> jsval \<Rightarrow> heap \<Rightarrow> ref \<times> heap" where
  "new_CodeError d K message h =
     (let msg = (if \<not> nullish message then message else message_of d (Integer (code K)))
      in alloc \<lparr>proto = CodeErrorProto K,
                 own = [(''message'', msg), (''name'', Str (className K))],
                 extensible = True, readonly = []\<rparr> h)"

text \<open>
  \<^verbatim>\<open>new Error(m)\<close> for \<^verbatim>\<open>m\<close> a string or \<^verbatim>\<open>undefined\<close>: with \<^verbatim>\<open>undefined\<close> the
  object gets no own \<^verbatim>\<open>message\<close>.
\<close>

definition new_Error :: "jsval \<Rightarrow> heap \<Rightarrow> ref \<times> heap" where
  "new_Error m h =
     alloc \<lparr>proto = ErrorProto, own = (if m = Undefined then [] else [(''message'', m)]),
            extensible = True, readonly = []\<rparr> h"

text \<open>
  The body of \<^verbatim>\<open>forEachCode\<close> in \<^verbatim>\<open>populateConstructorExports\<close>. The table holds
  the properties the loop writes on \<^verbatim>\<open>exports\<close>, by property key. Every code of
  \<^const>\<open>statuses_codes\<close> has a reason phrase, so the branch for a missing phrase
  (where \<^verbatim>\<open>toIdentifier(undefined)\<close> would raise) is never taken while the module
  loads.
\<close>

definition forEachCode :: "deps \<Rightarrow> int \<Rightarrow> (string \<rightharpoonup> ctor) \<Rightarrow> (string \<rightharpoonup> ctor)" where
  "forEachCode d c exports =
     (case map_of (statuses_message d) c of
        None \<Rightarrow> exports
      | Some phrase \<Rightarrow>
          (let name = toIdentifier d phrase;
               CodeError =
                 (if codeClass (Integer c) = Integer 400
                  then Some (createClientErrorConstructor name c)
                  else if codeClass (Integer c) = Integer 500
                  then Some (createServerErrorConstructor name c)
                  else None)
           in case CodeError of
                None \<Rightarrow> exports
              | Some K \<Rightarrow> (exports(String_num (Integer c) \<mapsto> K))(name \<mapsto> K)))"

definition populateConstructorExports ::
  "deps \<Rightarrow> (string \<rightharpoonup> ctor) \<Rightarrow> int list \<Rightarrow> (string \<rightharpoonup> ctor)" where
  "populateConstructorExports d exports codes = fold (forEachCode d) codes exports"

text \<open>
  The generated constructors reachable as \<^verbatim>\<open>createError[key]\<close> once the module is
  loaded. The properties \<^verbatim>\<open>HttpError\<close> and \<^verbatim>\<open>isHttpError\<close> of the same function
  object are not constructors of a code and are kept apart.
\<close>

definition createError_exports :: "deps \<Rightarrow> (string \<rightharpoonup> ctor)" where
  "createError_exports d = populateConstructorExports d Map.empty (statuses_codes d)"

section \<open>The type guard\<close>

text \<open>Reading \<^verbatim>\<open>v.k\<close> of a value that is an object.\<close>

definition val_get :: "heap \<Rightarrow> jsval \<Rightarrow> string \<Rightarrow> jsval" where
  "val_get h v k = (case v of Ref r \<Rightarrow> get_prop h r k | _ \<Rightarrow> Undefined)"

text \<open>
  \<^verbatim>\<open>createIsHttpErrorFunction(HttpError)\<close> applied to \<^verbatim>\<open>val\<close>. The parameter is
  typed \<^verbatim>\<open>any\<close>; \<^verbatim>\<open>val instanceof HttpError\<close> raises a \<^verbatim>\<open>TypeError\<close> in the
  host when \<^verbatim>\<open>HttpError\<close> is not a function.
\<close>

definition createIsHttpErrorFunction :: "jsval \<Rightarrow> heap \<Rightarrow> jsval \<Rightarrow> error + bool" where
  "createIsHttpErrorFunction HttpError h val =
     (if val = Null \<or> val = Undefined \<or> typeof val \<noteq> ''object'' then Inr False
      else case HttpError of
          Fn f \<Rightarrow>
            if instance_of h val f then Inr True
            else Inr (instance_of h val ErrorFn \<and>
                      typeof (val_get h val ''expose'') = ''boolean'' \<and>
                      typeof (val_get h val ''statusCode'') = ''number'' \<and>
                      strict_eq (val_get h val ''status'') (val_get h val ''statusCode''))
        | _ \<Rightarrow> Inl InstanceofTypeError)"

text \<open>
  The module's last statements:
  \<^verbatim>\<open>createError.HttpError = createHttpErrorConstructor()\<close> and
  \<^verbatim>\<open>createError.isHttpError = createIsHttpErrorFunction(module.exports.HttpError)\<close>.
  The first writes a property of the function \<^verbatim>\<open>createError\<close>; the second reads a
  property of the object \<^verbatim>\<open>module.exports\<close>, whose properties are a parameter here.
\<close>

definition createError_HttpError :: jsval where
  "createError_HttpError = Fn HttpErrorFn"

definition createError_isHttpError ::
  "(string \<times> jsval) list \<Rightarrow> heap \<Rightarrow> jsval \<Rightarrow> error + bool" where
  "createError_isHttpError module_exports =
     createIsHttpErrorFunction
       (case map_of module_exports ''HttpError'' of Some v \<Rightarrow> v | None \<Rightarrow> Undefined)"

text \<open>
  \<^verbatim>\<open>module.exports\<close> when that statement runs. It is the export object of the
  module, not the function \<^verbatim>\<open>createError\<close>: the file never assigns
  \<^verbatim>\<open>module.exports\<close> and never writes a property of it; it ends with
  \<^verbatim>\<open>export default createError\<close>, which sets \<^verbatim>\<open>default\<close> after this statement.
  So the object has no property \<^verbatim>\<open>HttpError\<close>.
\<close>

definition module_exports_at_load :: "(string \<times> jsval) list" where
  "module_exports_at_load = []"

section \<open>createError\<close>

text \<open>
  The local variables of \<^verbatim>\<open>createError\<close>. \<^verbatim>\<open>props\<close> starts as the literal
  \<^verbatim>\<open>{}\<close>, written \<open>None\<close>; afterwards it holds an argument.
\<close>

record locals =
  l_err :: jsval
  l_msg :: jsval
  l_status :: jsval
  l_props :: "jsval option"

definition init_locals :: locals where
  "init_locals =
     \<lparr>l_err = Undefined, l_msg = Undefined, l_status = Num (Integer 500), l_props = None\<rparr>"

text \<open>
  One turn of the loop over \<^verbatim>\<open>args\<close>, at index \<open>i\<close>. The last branch throws
  \<^verbatim>\<open>new TypeError(`argument #${i + 1} unsupported type ${type}`)\<close>.
\<close>

definition resolve_arg :: "heap \<Rightarrow> nat \<Rightarrow> jsval \<Rightarrow> locals \<Rightarrow> error + locals" where
  "resolve_arg h i arg l =
     (if typeof arg = ''object'' \<and> instance_of h arg ErrorFn then
        Inr (l\<lparr>l_err := arg,
               l_status := coalesce (val_get h arg ''status'')
                            (coalesce (val_get h arg ''statusCode'') (l_status l))\<rparr>)
      else if typeof arg = ''number'' \<and> i = 0 then Inr (l\<lparr>l_status := arg\<rparr>)
      else if typeof arg = ''string'' then Inr (l\<lparr>l_msg := arg\<rparr>)
      else if typeof arg = ''object'' then Inr (l\<lparr>l_props := Some arg\<rparr>)
      else Inl (TypeError (''argument #'' @ String_num (Integer (int i + 1)) @
                           '' unsupported type '' @ typeof arg)))"

fun resolve_args :: "heap \<Rightarrow> nat \<Rightarrow> jsval list \<Rightarrow> locals \<Rightarrow> error + locals" where
  "resolve_args h i [] l = Inr l"
| "resolve_args h i (arg # rest) l =
     (case resolve_arg h i arg l of
        Inl e \<Rightarrow> Inl e
      | Inr l' \<Rightarrow> resolve_args h (Suc i) rest l')"

text \<open>The condition of the call to \<^verbatim>\<open>deprecate\<close>.\<close>

definition deprecated :: "jsval \<Rightarrow> bool" where
  "deprecated status =
     (case status of Num n \<Rightarrow> num_lt n 400 \<or> num_ge n 600 | _ \<Rightarrow> False)"

definition deprecation_text :: string where
  "deprecation_text = ''non-error status code; use only 4xx or 5xx status codes''"

text \<open>The second \<^verbatim>\<open>if\<close>: the status after validation, always a number.\<close>

definition validate_status :: "deps \<Rightarrow> jsval \<Rightarrow> number" where
  "validate_status d status =
     (case status of
        Num n \<Rightarrow> if \<not> known d n \<and> (num_lt n 400 \<or> num_ge n 600) then Integer 500 else n
      | _ \<Rightarrow> Integer 500)"

text \<open>\<^verbatim>\<open>createError[status] || createError[codeClass(status)]\<close>.\<close>

definition select_kind :: "(string \<rightharpoonup> ctor) \<Rightarrow> number \<Rightarrow> ctor option" where
  "select_kind exports status =
     (case exports (String_num status) of
        Some K \<Rightarrow> Some K
      | None \<Rightarrow> exports (String_num (codeClass status)))"

text \<open>
  The condition of the normalisation:
  \<^verbatim>\<open>!HttpError || !(err instanceof HttpError) || err?.status !== status\<close>.
\<close>

definition must_normalise :: "heap \<Rightarrow> ctor option \<Rightarrow> ref \<Rightarrow> number \<Rightarrow> bool" where
  "must_normalise h HttpError err status =
     (case HttpError of
        None \<Rightarrow> True
      | Some K \<Rightarrow>
          \<not> instance_of h (Ref err) (CodeErrorFn K) \<or>
          \<not> strict_eq (get_prop h err ''status'') (Num status))"

text \<open>
  \<^verbatim>\<open>err.expose = status < 500\<close>, then \<^verbatim>\<open>err.status = err.statusCode = status\<close>, which
  assigns \<^verbatim>\<open>statusCode\<close> first.
\<close>

definition normalise :: "bool \<Rightarrow> heap \<Rightarrow> ref \<Rightarrow> number \<Rightarrow> error + heap" where
  "normalise strict_mode h err status =
     (case assign strict_mode h err ''expose'' (Bool (num_lt status 500)) of
        Inl e \<Rightarrow> Inl e
      | Inr h1 \<Rightarrow>
          (case assign strict_mode h1 err ''statusCode'' (Num status) of
             Inl e \<Rightarrow> Inl e
           | Inr h2 \<Rightarrow> assign strict_mode h2 err ''status'' (Num status)))"

text \<open>
  The keys \<^verbatim>\<open>for (const key in props)\<close> visits: none for \<^verbatim>\<open>{}\<close> and \<^verbatim>\<open>null\<close>, and
  the own keys of an object. An object argument that is not an error has
  \<^verbatim>\<open>Object.prototype\<close> as its prototype in this model, from which the loop inherits no
  key; own properties that are not enumerable are not modelled.
\<close>

definition props_keys :: "heap \<Rightarrow> jsval option \<Rightarrow> string list" where
  "props_keys h props =
     (case props of Some (Ref p) \<Rightarrow> map fst (own (cells h p)) | _ \<Rightarrow> [])"

fun copy_props :: "bool \<Rightarrow> heap \<Rightarrow> ref \<Rightarrow> jsval \<Rightarrow> string list \<Rightarrow> error + heap" where
  "copy_props strict_mode h err props [] = Inr h"
| "copy_props strict_mode h err props (key # keys) =
     (if key \<noteq> ''status'' \<and> key \<noteq> ''statusCode'' then
        (case assign strict_mode h err key (val_get h props key) of
           Inl e \<Rightarrow> Inl e
         | Inr h' \<Rightarrow> copy_props strict_mode h' err props keys)
      else copy_props strict_mode h err props keys)"

record result =
  returned :: ref
  heap_after :: heap
  advisories :: "string list"

text \<open>
  The error value the call goes on with: the adopted one, or a new one built by the
  selected constructor, or a bare \<^verbatim>\<open>new Error\<close> when no constructor was selected.
\<close>

definition obtain_error ::
  "deps \<Rightarrow> heap \<Rightarrow> locals \<Rightarrow> ctor option \<Rightarrow> number \<Rightarrow> ref \<times> heap" where
  "obtain_error d h l HttpError status =
     (case l_err l of
        Ref e \<Rightarrow> (e, h)
      | _ \<Rightarrow>
          (case HttpError of
             Some K \<Rightarrow> new_CodeError d K (l_msg l) h
           | None \<Rightarrow> new_Error (coalesce (l_msg l) (message_of d status)) h))"

text \<open>The loop \<^verbatim>\<open>for (const key in props)\<close>.\<close>

definition assign_props :: "bool \<Rightarrow> heap \<Rightarrow> ref \<Rightarrow> jsval option \<Rightarrow> error + heap" where
  "assign_props strict_mode h err props =
     (case props of
        Some p \<Rightarrow> copy_props strict_mode h err p (props_keys h props)
      | None \<Rightarrow> Inr h)"

text \<open>The statements of \<^verbatim>\<open>createError\<close> that follow the loop, on its local variables.\<close>

definition createError_finish :: "deps \<Rightarrow> heap \<Rightarrow> locals \<Rightarrow> error + result" where
  "createError_finish d h l =
     (let notes = (if deprecated (l_status l) then [deprecation_text] else []);
          status = validate_status d (l_status l);
          HttpError = select_kind (createError_exports d) status;
          (err, h1) = obtain_error d h l HttpError status
      in case (if must_normalise h1 HttpError err status
               then normalise (strict d) h1 err status else Inr h1) of
           Inl e \<Rightarrow> Inl e
         | Inr h2 \<Rightarrow>
             (case assign_props (strict d) h2 err (l_props l) of
                Inl e \<Rightarrow> Inl e
              | Inr h3 \<Rightarrow> Inr \<lparr>returned = err, heap_after = h3, advisories = notes\<rparr>))"

definition createError :: "deps \<Rightarrow> heap \<Rightarrow> jsval list \<Rightarrow> error + result" where
  "createError d h args =
     (case resolve_args h 0 args init_locals of
        Inl e \<Rightarrow> Inl e
      | Inr l \<Rightarrow> createError_finish d h l)"

text \<open>What a caller reads from the returned value: \<^verbatim>\<open>createError(...)[k]\<close>.\<close>

definition result_get :: "result \<Rightarrow> string \<Rightarrow> jsval" where
  "result_get r k = get_prop (heap_after r) (returned r) k"

section \<open>A sample registry\<close>

text \<open>
  Modelled from the spec: a concrete status registry and identifier deriver, for
  evaluating the definitions. The registry holds some of the codes of the imported
  package \<^verbatim>\<open>statuses-es\<close> with their reason phrases (the spec names "Not Found" for
  404); 499 and 999 are not among its codes. The identifier deriver splits the phrase at
  spaces, capitalises each token, joins the tokens and drops every character that is
  not a letter, a digit, an underscore or a space, as the package \<^verbatim>\<open>toidentifier\<close>
  does to produce a PascalCase token.
\<close>

definition upper_char :: "char \<Rightarrow> char" where
  "upper_char c =
     (case map_of (zip ''abcdefghijklmnopqrstuvwxyz'' ''ABCDEFGHIJKLMNOPQRSTUVWXYZ'') c of
        Some u \<Rightarrow> u
      | None \<Rightarrow> c)"

fun capitalise :: "string \<Rightarrow> string" where
  "capitalise [] = []"
| "capitalise (c # cs) = upper_char c # cs"

fun split_spaces :: "string \<Rightarrow> string \<Rightarrow> string list" where
  "split_spaces tok [] = [tok]"
| "split_spaces tok (c # cs) =
     (if c = CHR '' '' then tok # split_spaces [] cs else split_spaces (tok @ [c]) cs)"

definition identifier_char :: "char \<Rightarrow> bool" where
  "identifier_char c =
     (c \<in> set '' _0123456789abcdefghijklmnopqrstuvwxyzABCDEFGHIJKLMNOPQRSTUVWXYZ'')"

definition sample_toIdentifier :: "string \<Rightarrow> string" where
  "sample_toIdentifier str =
     filter identifier_char (concat (map capitalise (split_spaces [] str)))"

definition sample_deps :: deps where
  "sample_deps =
     \<lparr>statuses_message =
        [(200, ''OK''), (400, ''Bad Request''), (403, ''Forbidden''), (404, ''Not Found''),
         (500, ''Internal Server Error''), (503, ''Service Unavailable'')],
      toIdentifier = sample_toIdentifier,
      strict = True\<rparr>"

text \<open>The same registry in a build that runs the file as non-strict code.\<close>

definition sample_deps_sloppy :: deps where
  "sample_deps_sloppy = sample_deps\<lparr>strict := False\<rparr>"

definition empty_object :: obj where
  "empty_object = \<lparr>proto = ObjectProto, own = [], extensible = True, readonly = []\<rparr>"

definition empty_heap :: heap where
  "empty_heap = \<lparr>cells = (\<lambda>r. empty_object), next_ref = 0\<rparr>"

definition heap_of :: "obj list \<Rightarrow> heap" where
  "heap_of obs = \<lparr>cells = (\<lambda>r. if r < length obs then obs ! r else empty_object),
                  next_ref = length obs\<rparr>"



definition sample_plain_error :: obj where
  "sample_plain_error =
     \<lparr>proto = ErrorProto, own = [(''message'', Str ''broken'')],
      extensible = True, readonly = []\<rparr>"

text \<open>\<^verbatim>\<open>Object.freeze(new Error('broken'))\<close>.\<close>

definition sample_frozen_error :: obj where
  "sample_frozen_error =
     \<lparr>proto = ErrorProto, own = [(''message'', Str ''broken'')],
      extensible = False, readonly = [''message'']\<rparr>"






section \<open>Vocabulary of the statements\<close>

text \<open>Reading a decimal numeral back, the inverse of \<^const>\<open>string_of_nat\<close>.\<close>

definition digit_val :: "char \<Rightarrow> nat" where
  "digit_val c =
     (case map_of (zip ''0123456789'' [0, 1, 2, 3, 4, 5, 6, 7, 8, 9]) c of
        Some n \<Rightarrow> n
      | None \<Rightarrow> 0)"

definition nat_of_string :: "string \<Rightarrow> nat" where
  "nat_of_string s = foldl (\<lambda>acc c. 10 * acc + digit_val c) 0 s"

text \<open>The constructor \<^const>\<open>forEachCode\<close> builds for a code, if it builds one.\<close>

definition identifier_of :: "deps \<Rightarrow> int \<Rightarrow> string option" where
  "identifier_of d c = map_option (toIdentifier d) (map_of (statuses_message d) c)"

definition kind_of :: "deps \<Rightarrow> int \<Rightarrow> ctor option" where
  "kind_of d c =
     (case identifier_of d c of
        None \<Rightarrow> None
      | Some name \<Rightarrow>
          if codeClass (Integer c) = Integer 400 then Some (ClientError (toClassName name) c)
          else if codeClass (Integer c) = Integer 500 then Some (ServerError (toClassName name) c)
          else None)"

definition kind_of_number :: "deps \<Rightarrow> number \<Rightarrow> ctor option" where
  "kind_of_number d n = (case n of Integer c \<Rightarrow> kind_of d c | NaN \<Rightarrow> None)"

text \<open>
  Two conditions on the registry and the identifier deriver under which the property
  keys written by \<^const>\<open>populateConstructorExports\<close> do not overwrite each other: no
  derived identifier reads as a number (a decimal numeral or \<^verbatim>\<open>NaN\<close>), and no two codes
  derive the same identifier.
\<close>

definition looks_numeric :: "string \<Rightarrow> bool" where
  "looks_numeric s = (s = ''NaN'' \<or> (\<forall>ch \<in> set s. ch \<in> set ''-0123456789''))"

definition names_ok :: "deps \<Rightarrow> bool" where
  "names_ok d =
     (\<forall>c \<in> set (statuses_codes d).
        case identifier_of d c of None \<Rightarrow> True | Some name \<Rightarrow> \<not> looks_numeric name)"

definition names_distinct :: "deps \<Rightarrow> bool" where
  "names_distinct d =
     (\<forall>c \<in> set (statuses_codes d). \<forall>c' \<in> set (statuses_codes d).
        identifier_of d c = identifier_of d c' \<longrightarrow> c = c')"

text \<open>What a caller reads from the outcome of a call; \<open>None\<close> when the call raised.\<close>

definition read_result :: "error + result \<Rightarrow> string \<Rightarrow> jsval option" where
  "read_result x k = (case x of Inl e \<Rightarrow> None | Inr r \<Rightarrow> Some (result_get r k))"


text \<open>
  An argument of a recognised shape at index \<open>i\<close>: an error value, a string, an object,
  or a number in the first position.
\<close>

definition accepted :: "heap \<Rightarrow> nat \<Rightarrow> jsval \<Rightarrow> bool" where
  "accepted h i a =
     (instance_of h a ErrorFn \<or> typeof a = ''string'' \<or> typeof a = ''object'' \<or>
      (typeof a = ''number'' \<and> i = 0))"



text \<open>A guard applied to the value a call returned; \<open>None\<close> when the call raised.\<close>

definition guard_result ::
  "(heap \<Rightarrow> jsval \<Rightarrow> error + bool) \<Rightarrow> error + result \<Rightarrow> (error + bool) option" where
  "guard_result guard x =
     (case x of Inl e \<Rightarrow> None | Inr r \<Rightarrow> Some (guard (heap_after r) (Ref (returned r))))"


section \<open>Decimal numerals\<close>

text \<open>\<^const>\<open>String_num\<close> is injective, and a three-digit code has its hundreds digit first.\<close>

lemma digit_val_digit_char: "d < 10 \<Longrightarrow> digit_val (digit_char d) = d"
proof -
  assume "d < 10"
  then have "d = 0 \<or> d = 1 \<or> d = 2 \<or> d = 3 \<or> d = 4 \<or> d = 5 \<or> d = 6 \<or> d = 7 \<or> d = 8 \<or> d = 9"
    by arith
  then show ?thesis
    by (elim disjE) (simp_all add: digit_val_def digit_char_def)
qed

lemma digit_char_in: "digit_char d \<in> set ''0123456789''"
proof -
  have "d mod 10 < 10" by simp
  then have "d mod 10 = 0 \<or> d mod 10 = 1 \<or> d mod 10 = 2 \<or> d mod 10 = 3 \<or> d mod 10 = 4
      \<or> d mod 10 = 5 \<or> d mod 10 = 6 \<or> d mod 10 = 7 \<or> d mod 10 = 8 \<or> d mod 10 = 9"
    by arith
  then show ?thesis
    by (elim disjE) (simp_all add: digit_char_def)
qed

lemma nat_of_string_of_nat: "nat_of_string (string_of_nat n) = n"
proof (induction n rule: string_of_nat.induct)
  case (1 n)
  show ?case
  proof (cases "n < 10")
    case True
    then show ?thesis
      by (simp add: string_of_nat.simps [of n] nat_of_string_def digit_val_digit_char)
  next
    case False
    then have "nat_of_string (string_of_nat (n div 10)) = n div 10"
      using 1 by simp
    then show ?thesis
      using False
      by (simp add: string_of_nat.simps [of n] nat_of_string_def digit_val_digit_char)
  qed
qed

lemma string_of_nat_inj: "string_of_nat a = string_of_nat b \<Longrightarrow> a = b"
  by (metis nat_of_string_of_nat)

lemma string_of_nat_digits: "set (string_of_nat n) \<subseteq> set ''0123456789''"
proof (induction n rule: string_of_nat.induct)
  case (1 n)
  show ?case
  proof (cases "n < 10")
    case True
    then show ?thesis
      using digit_char_in [of n] by (simp add: string_of_nat.simps [of n])
  next
    case False
    then show ?thesis
      using 1 digit_char_in [of "n mod 10"] by (simp add: string_of_nat.simps [of n])
  qed
qed

lemma string_of_nat_nonempty: "string_of_nat n \<noteq> []"
  by (simp add: string_of_nat.simps [of n])

lemma String_int_inj: "String_int a = String_int b \<Longrightarrow> a = b"
proof -
  assume eq: "String_int a = String_int b"
  have nominus: "\<And>n m. CHR ''-'' # string_of_nat n \<noteq> string_of_nat m"
  proof
    fix n m
    assume "CHR ''-'' # string_of_nat n = string_of_nat m"
    then have "CHR ''-'' \<in> set (string_of_nat m)"
      by (metis list.set_intros(1))
    then show False
      using string_of_nat_digits [of m] by auto
  qed
  show ?thesis
  proof (cases "a < 0")
    case an: True
    show ?thesis
    proof (cases "b < 0")
      case True
      with an eq have "nat (- a) = nat (- b)"
        by (simp add: String_int_def string_of_nat_inj)
      with an True show ?thesis by simp
    next
      case False
      with an eq nominus show ?thesis by (simp add: String_int_def)
    qed
  next
    case ap: False
    show ?thesis
    proof (cases "b < 0")
      case True
      with ap eq nominus [of "nat (- b)" "nat a"] show ?thesis by (simp add: String_int_def)
    next
      case False
      with ap eq have "nat a = nat b"
        by (simp add: String_int_def string_of_nat_inj)
      with ap False show ?thesis by simp
    qed
  qed
qed

lemma String_int_chars: "set (String_int n) \<subseteq> set ''-0123456789''"
proof -
  have "set ''0123456789'' \<subseteq> set ''-0123456789''"
    by (simp only: list.set) blast
  then have "set (string_of_nat k) \<subseteq> set ''-0123456789''" for k
    using string_of_nat_digits [of k] by (rule_tac subset_trans)
  moreover have "CHR ''-'' \<in> set ''-0123456789''"
    by (simp only: list.set) blast
  ultimately show ?thesis
    by (simp only: String_int_def list.set insert_subset split: if_split) blast
qed

lemma String_int_not_NaN: "String_int n \<noteq> ''NaN''"
proof
  assume "String_int n = ''NaN''"
  then have "CHR ''N'' \<in> set (String_int n)"
    by simp
  then have "CHR ''N'' \<in> set ''-0123456789''"
    using String_int_chars [of n] by (rule_tac subsetD)
  then show False
    by simp
qed

lemma String_int_no_space: "CHR '' '' \<notin> set (String_int n)"
proof
  assume "CHR '' '' \<in> set (String_int n)"
  then have "CHR '' '' \<in> set ''-0123456789''"
    using String_int_chars [of n] by (rule_tac subsetD)
  then show False
    by simp
qed

lemma String_int_nonempty: "String_int n \<noteq> []"
  by (simp add: String_int_def string_of_nat_nonempty)

lemma String_num_simps:
  "String_num (Integer n) = String_int n" "String_num NaN = ''NaN''"
  by (simp_all add: String_num_def)

lemma String_num_inj: "String_num a = String_num b \<Longrightarrow> a = b"
proof (cases a; cases b)
  fix x y
  assume "a = Integer x" "b = Integer y" "String_num a = String_num b"
  then show "a = b"
    using String_int_inj [of x y] by (simp add: String_num_simps)
next
  fix x
  assume "a = Integer x" "b = NaN" "String_num a = String_num b"
  then show "a = b"
    using String_int_not_NaN [of x] by (simp add: String_num_simps)
next
  fix y
  assume "a = NaN" "b = Integer y" "String_num a = String_num b"
  then show "a = b"
    using String_int_not_NaN [of y] by (simp add: String_num_simps)
next
  assume "a = NaN" "b = NaN"
  then show "a = b"
    by simp
qed

lemma String_num_no_space: "CHR '' '' \<notin> set (String_num n)"
  by (cases n) (simp_all add: String_int_no_space String_num_simps)

lemma hd_string_of_nat_3: "100 \<le> n \<Longrightarrow> n < 1000 \<Longrightarrow> hd (string_of_nat n) = digit_char (n div 100)"
proof -
  assume a: "100 \<le> n" "n < 1000"
  have d: "n div 10 div 10 = n div 100"
    by (simp add: div_mult2_eq)
  have 1: "string_of_nat n = string_of_nat (n div 10) @ [digit_char (n mod 10)]"
    using a by (simp add: string_of_nat.simps [of n])
  have big: "\<not> n div 10 < 10"
    using a by arith
  have 2: "string_of_nat (n div 10) = string_of_nat (n div 100) @ [digit_char (n div 10 mod 10)]"
    using big d by (simp add: string_of_nat.simps [of "n div 10"])
  have small: "n div 100 < 10"
    using a by arith
  have 3: "string_of_nat (n div 100) = [digit_char (n div 100)]"
    using small by (simp add: string_of_nat.simps [of "n div 100"])
  show ?thesis
    by (simp add: 1 2 3)
qed

lemma codeClass_4xx: "400 \<le> c \<Longrightarrow> c \<le> 499 \<Longrightarrow> codeClass (Integer c) = Integer 400"
proof -
  assume a: "400 \<le> c" "c \<le> 499"
  then have "nat c div 100 = 4" by simp
  then show ?thesis
    using a hd_string_of_nat_3 [of "nat c"]
    by (simp add: codeClass_def String_num_simps String_int_def Number_c00_def digit_char_def)
qed

lemma codeClass_5xx: "500 \<le> c \<Longrightarrow> c \<le> 599 \<Longrightarrow> codeClass (Integer c) = Integer 500"
proof -
  assume a: "500 \<le> c" "c \<le> 599"
  then have "nat c div 100 = 5" by simp
  then show ?thesis
    using a hd_string_of_nat_3 [of "nat c"]
    by (simp add: codeClass_def String_num_simps String_int_def Number_c00_def digit_char_def)
qed

lemma codeClass_NaN: "codeClass NaN = NaN"
  by (simp add: codeClass_def String_num_simps Number_c00_def)

section \<open>The registration table\<close>

text \<open>
  What \<^const>\<open>populateConstructorExports\<close> leaves under a numeric key and under an
  identifier.
\<close>

lemma kind_of_identifier: "kind_of d c = Some K \<Longrightarrow> \<exists>name. identifier_of d c = Some name"
  by (cases "identifier_of d c") (simp_all add: kind_of_def)

lemma kind_of_code: "kind_of d c = Some K \<Longrightarrow> code K = c"
  by (auto simp: kind_of_def split: option.splits if_splits)

lemma forEachCode_None: "kind_of d c = None \<Longrightarrow> forEachCode d c e = e"
  by (auto simp: forEachCode_def kind_of_def identifier_of_def Let_def
      createClientErrorConstructor_def createServerErrorConstructor_def
      split: option.splits if_splits)

lemma forEachCode_Some:
  "kind_of d c = Some K \<Longrightarrow> identifier_of d c = Some name \<Longrightarrow>
   forEachCode d c e = (e(String_num (Integer c) \<mapsto> K))(name \<mapsto> K)"
  by (auto simp: forEachCode_def kind_of_def identifier_of_def Let_def
      createClientErrorConstructor_def createServerErrorConstructor_def
      split: option.splits if_splits)

lemma fold_forEachCode_sound:
  "(\<And>k K. e k = Some K \<Longrightarrow> kind_of d (code K) = Some K) \<Longrightarrow>
   fold (forEachCode d) cs e k = Some K \<Longrightarrow> kind_of d (code K) = Some K"
proof (induction cs arbitrary: e)
  case Nil
  then show ?case by simp
next
  case (Cons c cs)
  have step: "\<And>k' K'. forEachCode d c e k' = Some K' \<Longrightarrow> kind_of d (code K') = Some K'"
  proof -
    fix k' K'
    assume a: "forEachCode d c e k' = Some K'"
    show "kind_of d (code K') = Some K'"
    proof (cases "kind_of d c")
      case None
      then show ?thesis using a Cons.prems(1) by (simp add: forEachCode_None)
    next
      case (Some K0)
      then obtain name where n: "identifier_of d c = Some name"
        using kind_of_identifier by blast
      have "K' = K0 \<or> e k' = Some K'"
        using a by (auto simp: forEachCode_Some [OF Some n] split: if_splits)
      then show ?thesis
        using Some Cons.prems(1) kind_of_code [OF Some] by auto
    qed
  qed
  show ?case
    using Cons.IH [of "forEachCode d c e"] step Cons.prems(2) by simp
qed

lemma exports_sound:
  "createError_exports d k = Some K \<Longrightarrow> kind_of d (code K) = Some K"
  unfolding createError_exports_def populateConstructorExports_def
  using fold_forEachCode_sound [of Map.empty d] by simp

lemma looks_numeric_String_num: "looks_numeric (String_num n)"
proof (cases n)
  case (Integer m)
  have "set (String_int m) \<subseteq> set ''-0123456789''"
    by (rule String_int_chars)
  then have "\<forall>ch \<in> set (String_int m). ch \<in> set ''-0123456789''"
    by blast
  then show ?thesis
    unfolding looks_numeric_def Integer String_num_simps by (rule disjI2)
next
  case NaN
  then show ?thesis
    by (simp add: looks_numeric_def String_num_simps)
qed

lemma kind_of_number_simps:
  "kind_of_number d (Integer c) = kind_of d c" "kind_of_number d NaN = None"
  by (simp_all add: kind_of_number_def)

lemma fold_forEachCode_numeric:
  "(\<And>c name. c \<in> set cs \<Longrightarrow> identifier_of d c = Some name \<Longrightarrow> \<not> looks_numeric name) \<Longrightarrow>
   fold (forEachCode d) cs e (String_num n) =
     (if (\<exists>m. n = Integer m \<and> m \<in> set cs) \<and> kind_of_number d n \<noteq> None
      then kind_of_number d n else e (String_num n))"
proof (induction cs arbitrary: e)
  case Nil
  then show ?case by simp
next
  case (Cons c cs)
  have rest: "\<And>c' name. c' \<in> set cs \<Longrightarrow> identifier_of d c' = Some name \<Longrightarrow> \<not> looks_numeric name"
    by (rule Cons.prems) simp_all
  have IH: "fold (forEachCode d) cs (forEachCode d c e) (String_num n) =
     (if (\<exists>m. n = Integer m \<and> m \<in> set cs) \<and> kind_of_number d n \<noteq> None
      then kind_of_number d n else forEachCode d c e (String_num n))"
    by (rule Cons.IH [OF rest])
  have here: "forEachCode d c e (String_num n) =
     (if n = Integer c \<and> kind_of_number d n \<noteq> None then kind_of_number d n
      else e (String_num n))"
  proof (cases "kind_of d c")
    case None
    then show ?thesis by (auto simp: forEachCode_None kind_of_number_simps)
  next
    case (Some K0)
    then obtain name where nm: "identifier_of d c = Some name"
      using kind_of_identifier by blast
    have "\<not> looks_numeric name"
      using Cons.prems [of c name] nm by simp
    then have ne: "name \<noteq> String_num n"
      by (metis looks_numeric_String_num)
    have upd: "forEachCode d c e (String_num n) =
        (if String_num n = String_num (Integer c) then Some K0 else e (String_num n))"
      using ne by (simp only: forEachCode_Some [OF Some nm] fun_upd_apply) simp
    show ?thesis
    proof (cases "n = Integer c")
      case True
      then show ?thesis
        using Some upd by (simp add: kind_of_number_simps)
    next
      case False
      then have "String_num n \<noteq> String_num (Integer c)"
        using String_num_inj [of n "Integer c"] by blast
      then show ?thesis
        using False upd by (simp only: if_False simp_thms)
    qed
  qed
  show ?case
    using IH here by auto
qed

lemma known_in_codes: "known d (Integer c) \<Longrightarrow> c \<in> set (statuses_codes d)"
  by (auto simp: known_def statuses_codes_def dest: map_of_SomeD intro: rev_image_eqI)

lemma kind_of_in_codes: "kind_of d c = Some K \<Longrightarrow> c \<in> set (statuses_codes d)"
  using known_in_codes [of d c]
  by (auto simp: kind_of_def identifier_of_def known_def split: option.splits)

lemma exports_numeric:
  assumes "names_ok d"
  shows "createError_exports d (String_num n) = kind_of_number d n"
proof -
  have ok: "\<And>c name. c \<in> set (statuses_codes d) \<Longrightarrow> identifier_of d c = Some name \<Longrightarrow>
      \<not> looks_numeric name"
    using assms by (auto simp: names_ok_def split: option.splits)
  have "createError_exports d (String_num n) =
      (if (\<exists>m. n = Integer m \<and> m \<in> set (statuses_codes d)) \<and> kind_of_number d n \<noteq> None
       then kind_of_number d n else None)"
    unfolding createError_exports_def populateConstructorExports_def
    using fold_forEachCode_numeric [where cs = "statuses_codes d" and d = d and n = n and e = Map.empty] ok by simp
  then show ?thesis
    using kind_of_in_codes [of d]
    by (cases n; cases "kind_of_number d n") (auto simp: kind_of_number_simps)
qed

lemma fold_forEachCode_name:
  assumes "kind_of d c = Some K" and "identifier_of d c = Some name"
    and "\<not> looks_numeric name"
    and "\<And>c'. c' \<in> set cs \<Longrightarrow> identifier_of d c' = Some name \<Longrightarrow> c' = c"
  shows "fold (forEachCode d) cs e name = (if c \<in> set cs then Some K else e name)"
  using assms(4)
proof (induction cs arbitrary: e)
  case Nil
  then show ?case by simp
next
  case (Cons c' cs)
  have rest: "\<And>c''. c'' \<in> set cs \<Longrightarrow> identifier_of d c'' = Some name \<Longrightarrow> c'' = c"
    by (rule Cons.prems) simp_all
  have IH: "fold (forEachCode d) cs (forEachCode d c' e) name =
      (if c \<in> set cs then Some K else forEachCode d c' e name)"
    by (rule Cons.IH [OF rest])
  have here: "forEachCode d c' e name = (if c' = c then Some K else e name)"
  proof (cases "kind_of d c'")
    case None
    then show ?thesis using assms(1) by (auto simp: forEachCode_None)
  next
    case (Some K')
    then obtain name' where nm: "identifier_of d c' = Some name'"
      using kind_of_identifier by blast
    have ne: "name \<noteq> String_num (Integer c')"
      using assms(3) by (metis looks_numeric_String_num)
    have "name' = name \<Longrightarrow> c' = c"
      using Cons.prems [of c'] nm by simp
    then show ?thesis
      using Some nm ne assms(1,2) by (auto simp: forEachCode_Some [OF Some nm])
  qed
  show ?case
    using IH here by auto
qed

lemma exports_name:
  assumes "names_ok d" and "names_distinct d"
    and "kind_of d c = Some K" and "identifier_of d c = Some name"
  shows "createError_exports d name = Some K"
proof -
  have c: "c \<in> set (statuses_codes d)"
    using assms(3) by (rule kind_of_in_codes)
  have nn: "\<not> looks_numeric name"
    using assms(1,4) c by (auto simp: names_ok_def split: option.splits)
  have uniq: "\<And>c'. c' \<in> set (statuses_codes d) \<Longrightarrow> identifier_of d c' = Some name \<Longrightarrow> c' = c"
    using assms(2,4) c by (auto simp: names_distinct_def)
  show ?thesis
    unfolding createError_exports_def populateConstructorExports_def
    using fold_forEachCode_name [OF assms(3,4) nn uniq, where cs = "statuses_codes d" and e = Map.empty] c
    by simp
qed

lemma fold_forEachCode_keys:
  "(\<And>k K. e k = Some K \<Longrightarrow>
      k = String_num (Integer (code K)) \<or> identifier_of d (code K) = Some k) \<Longrightarrow>
   fold (forEachCode d) cs e k = Some K \<Longrightarrow>
   k = String_num (Integer (code K)) \<or> identifier_of d (code K) = Some k"
proof (induction cs arbitrary: e)
  case Nil
  then show ?case by simp
next
  case (Cons c cs)
  have step: "\<And>k' K'. forEachCode d c e k' = Some K' \<Longrightarrow>
      k' = String_num (Integer (code K')) \<or> identifier_of d (code K') = Some k'"
  proof -
    fix k' K'
    assume a: "forEachCode d c e k' = Some K'"
    show "k' = String_num (Integer (code K')) \<or> identifier_of d (code K') = Some k'"
    proof (cases "kind_of d c")
      case None
      then show ?thesis using a Cons.prems(1) by (simp add: forEachCode_None)
    next
      case (Some K0)
      then obtain name where n: "identifier_of d c = Some name"
        using kind_of_identifier by blast
      have "(K' = K0 \<and> (k' = name \<or> k' = String_num (Integer c))) \<or> e k' = Some K'"
        using a by (auto simp: forEachCode_Some [OF Some n] split: if_splits)
      then show ?thesis
        using n Cons.prems(1) kind_of_code [OF Some] by auto
    qed
  qed
  show ?case
    using Cons.IH [of "forEachCode d c e"] step Cons.prems(2) by simp
qed

lemma exports_keys:
  "createError_exports d k = Some K \<Longrightarrow>
   k = String_num (Integer (code K)) \<or> identifier_of d (code K) = Some k"
  unfolding createError_exports_def populateConstructorExports_def
  using fold_forEachCode_keys [of Map.empty d] by simp

section \<open>Property reads after property writes\<close>

lemma get_prop_set_prop:
  "get_prop (set_prop h r k v) r' k' = (if r' = r \<and> k' = k then v else get_prop h r' k')"
  by (simp add: get_prop_def set_prop_def update_conv' split: option.splits)

lemma cells_set_prop_other: "r' \<noteq> r \<Longrightarrow> cells (set_prop h r k v) r' = cells h r'"
  by (simp add: set_prop_def)

lemma proto_set_prop: "proto (cells (set_prop h r k v) r') = proto (cells h r')"
  by (simp add: set_prop_def)

lemma next_ref_set_prop: "next_ref (set_prop h r k v) = next_ref h"
  by (simp add: set_prop_def)

lemma instance_of_set_prop: "instance_of (set_prop h r k v) x f = instance_of h x f"
  by (cases x) (simp_all add: instance_of_def proto_set_prop)

lemma writable_set_prop:
  "writable (cells h r) k \<Longrightarrow>
   writable (cells (set_prop h r k v) r') k' = writable (cells h r') k'"
  by (auto simp: writable_def set_prop_def update_conv')

lemma status_keys_differ:
  "''status'' \<noteq> ''statusCode''" "''status'' \<noteq> ''expose''" "''statusCode'' \<noteq> ''expose''"
  "''statusCode'' \<noteq> ''status''" "''expose'' \<noteq> ''status''" "''expose'' \<noteq> ''statusCode''"
  by simp_all

text \<open>One assignment.\<close>

lemma assign_Inr:
  "assign st h r k v = Inr h' \<Longrightarrow>
   k \<noteq> ''__proto__'' \<and> (st \<longrightarrow> writable (cells h r) k) \<and>
   h' = (if writable (cells h r) k then set_prop h r k v else h)"
  by (auto simp: assign_def split: if_splits)

lemma assign_done:
  "k \<noteq> ''__proto__'' \<Longrightarrow> writable (cells h r) k \<Longrightarrow> assign st h r k v = Inr (set_prop h r k v)"
  by (simp add: assign_def)

lemma assign_skipped:
  "k \<noteq> ''__proto__'' \<Longrightarrow> \<not> writable (cells h r) k \<Longrightarrow> assign False h r k v = Inr h"
  by (simp add: assign_def)

lemma assign_refused:
  "k \<noteq> ''__proto__'' \<Longrightarrow> \<not> writable (cells h r) k \<Longrightarrow> assign True h r k v = Inl AssignTypeError"
  by (simp add: assign_def)

lemma get_prop_assign:
  "assign st h r k v = Inr h' \<Longrightarrow>
   get_prop h' r' k' =
     (if r' = r \<and> k' = k \<and> writable (cells h r) k then v else get_prop h r' k')"
  by (auto dest!: assign_Inr simp: get_prop_set_prop)

lemma cells_assign_other: "assign st h r k v = Inr h' \<Longrightarrow> r' \<noteq> r \<Longrightarrow> cells h' r' = cells h r'"
  by (auto dest!: assign_Inr simp: cells_set_prop_other)

lemma proto_assign: "assign st h r k v = Inr h' \<Longrightarrow> proto (cells h' r') = proto (cells h r')"
  by (auto dest!: assign_Inr simp: proto_set_prop)

lemma next_ref_assign: "assign st h r k v = Inr h' \<Longrightarrow> next_ref h' = next_ref h"
  by (auto dest!: assign_Inr simp: next_ref_set_prop)

lemma writable_assign:
  "assign st h r k v = Inr h' \<Longrightarrow> writable (cells h' r') k' = writable (cells h r') k'"
  by (cases "writable (cells h r) k") (auto dest!: assign_Inr simp: writable_set_prop)

text \<open>The three assignments of the normalisation.\<close>

lemma normalise_Inr:
  assumes "normalise st h e s = Inr h'"
  obtains h1 h2 where "assign st h e ''expose'' (Bool (num_lt s 500)) = Inr h1"
    and "assign st h1 e ''statusCode'' (Num s) = Inr h2"
    and "assign st h2 e ''status'' (Num s) = Inr h'"
  using assms by (auto simp: normalise_def split: sum.splits)

lemma get_prop_normalise:
  assumes "normalise st h e s = Inr h'"
  shows "get_prop h' r k =
     (if r = e \<and> k = ''status'' \<and> writable (cells h e) ''status'' then Num s
      else if r = e \<and> k = ''statusCode'' \<and> writable (cells h e) ''statusCode'' then Num s
      else if r = e \<and> k = ''expose'' \<and> writable (cells h e) ''expose''
        then Bool (num_lt s 500)
      else get_prop h r k)"
proof -
  from assms obtain h1 h2 where a: "assign st h e ''expose'' (Bool (num_lt s 500)) = Inr h1"
    and b: "assign st h1 e ''statusCode'' (Num s) = Inr h2"
    and c: "assign st h2 e ''status'' (Num s) = Inr h'"
    by (rule normalise_Inr)
  have w1: "writable (cells h1 e) k' = writable (cells h e) k'" for k'
    using a by (rule writable_assign)
  have w2: "writable (cells h2 e) k' = writable (cells h e) k'" for k'
    using writable_assign [OF b] w1 by simp
  show ?thesis
    unfolding get_prop_assign [OF c] get_prop_assign [OF b] get_prop_assign [OF a] w1 w2
    using status_keys_differ by presburger
qed

lemma cells_normalise_other:
  "normalise st h e s = Inr h' \<Longrightarrow> r \<noteq> e \<Longrightarrow> cells h' r = cells h r"
  by (erule normalise_Inr) (simp add: cells_assign_other)

lemma proto_normalise: "normalise st h e s = Inr h' \<Longrightarrow> proto (cells h' r) = proto (cells h r)"
  by (erule normalise_Inr) (simp add: proto_assign)

lemma next_ref_normalise: "normalise st h e s = Inr h' \<Longrightarrow> next_ref h' = next_ref h"
  by (erule normalise_Inr) (simp add: next_ref_assign)


lemma normalise_strict:
  assumes "normalise True h e s = Inr h'"
  shows "writable (cells h e) ''expose'' \<and> writable (cells h e) ''statusCode'' \<and>
    writable (cells h e) ''status''"
proof -
  from assms obtain h1 h2 where a: "assign True h e ''expose'' (Bool (num_lt s 500)) = Inr h1"
    and b: "assign True h1 e ''statusCode'' (Num s) = Inr h2"
    and c: "assign True h2 e ''status'' (Num s) = Inr h'"
    by (rule normalise_Inr)
  have "writable (cells h e) ''expose''"
    using assign_Inr [OF a] by simp
  moreover have "writable (cells h e) ''statusCode''"
    using assign_Inr [OF b] writable_assign [OF a] by simp
  moreover have "writable (cells h e) ''status''"
    using assign_Inr [OF c] writable_assign [OF b] writable_assign [OF a] by simp
  ultimately show ?thesis by simp
qed

lemma normalise_total:
  assumes "\<not> st \<or> (writable (cells h e) ''expose'' \<and> writable (cells h e) ''statusCode'' \<and>
    writable (cells h e) ''status'')"
  shows "\<exists>h'. normalise st h e s = Inr h'"
proof -
  have one: "\<exists>h1. assign st h0 e k v = Inr h1"
    if "k \<noteq> ''__proto__''" "\<not> st \<or> writable (cells h0 e) k" for h0 k v
    using that by (cases "writable (cells h0 e) k") (auto simp: assign_def)
  obtain h1 where a: "assign st h e ''expose'' (Bool (num_lt s 500)) = Inr h1"
    using one [of "''expose''" h] assms by auto
  have "\<not> st \<or> writable (cells h1 e) ''statusCode''"
    using assms writable_assign [OF a] by auto
  then obtain h2 where b: "assign st h1 e ''statusCode'' (Num s) = Inr h2"
    using one [of "''statusCode''" h1] by auto
  have "\<not> st \<or> writable (cells h2 e) ''status''"
    using assms writable_assign [OF a] writable_assign [OF b] by auto
  then obtain h3 where c: "assign st h2 e ''status'' (Num s) = Inr h3"
    using one [of "''status''" h2] by auto
  show ?thesis
    using a b c by (simp add: normalise_def)
qed

lemma normalise_refused:
  assumes "\<not> (writable (cells h e) ''expose'' \<and> writable (cells h e) ''statusCode'' \<and>
    writable (cells h e) ''status'')"
  shows "normalise True h e s = Inl AssignTypeError"
proof (cases "normalise True h e s")
  case (Inr h')
  then show ?thesis
    using normalise_strict [OF Inr] assms by simp
next
  case (Inl err)
  have "err = AssignTypeError"
    using Inl
    by (auto simp: normalise_def assign_def split: sum.splits if_splits)
  then show ?thesis
    using Inl by simp
qed

text \<open>The loop over the keys of the object argument.\<close>

lemma copy_props_Cons_Inr:
  assumes "copy_props st h e p (key # keys) = Inr h'"
  obtains h1 where "copy_props st h1 e p keys = Inr h'"
    and "if key \<noteq> ''status'' \<and> key \<noteq> ''statusCode''
         then assign st h e key (val_get h p key) = Inr h1 else h1 = h"
  using assms by (auto split: if_splits sum.splits)

lemma copy_props_protected:
  "copy_props st h e p keys = Inr h' \<Longrightarrow> k = ''status'' \<or> k = ''statusCode'' \<Longrightarrow>
   get_prop h' r k = get_prop h r k"
proof (induction keys arbitrary: h)
  case Nil
  then show ?case by simp
next
  case (Cons key keys)
  from Cons.prems(1) obtain h1 where rest: "copy_props st h1 e p keys = Inr h'"
    and step: "if key \<noteq> ''status'' \<and> key \<noteq> ''statusCode''
         then assign st h e key (val_get h p key) = Inr h1 else h1 = h"
    by (rule copy_props_Cons_Inr)
  have "get_prop h1 r k = get_prop h r k"
  proof (cases "key \<noteq> ''status'' \<and> key \<noteq> ''statusCode''")
    case True
    then have "k \<noteq> key" using Cons.prems(2) by blast
    then show ?thesis
      using True step by (simp add: get_prop_assign)
  next
    case False
    then show ?thesis using step by auto
  qed
  then show ?case
    using Cons.IH [OF rest Cons.prems(2)] by simp
qed

lemma cells_copy_props_other:
  "copy_props st h e p keys = Inr h' \<Longrightarrow> r \<noteq> e \<Longrightarrow> cells h' r = cells h r"
proof (induction keys arbitrary: h)
  case Nil
  then show ?case by simp
next
  case (Cons key keys)
  from Cons.prems(1) obtain h1 where rest: "copy_props st h1 e p keys = Inr h'"
    and step: "if key \<noteq> ''status'' \<and> key \<noteq> ''statusCode''
         then assign st h e key (val_get h p key) = Inr h1 else h1 = h"
    by (rule copy_props_Cons_Inr)
  have "cells h1 r = cells h r"
    using step Cons.prems(2) by (auto simp: cells_assign_other split: if_splits)
  then show ?case
    using Cons.IH [OF rest Cons.prems(2)] by simp
qed

lemma next_ref_copy_props: "copy_props st h e p keys = Inr h' \<Longrightarrow> next_ref h' = next_ref h"
proof (induction keys arbitrary: h)
  case Nil
  then show ?case by simp
next
  case (Cons key keys)
  from Cons.prems(1) obtain h1 where rest: "copy_props st h1 e p keys = Inr h'"
    and step: "if key \<noteq> ''status'' \<and> key \<noteq> ''statusCode''
         then assign st h e key (val_get h p key) = Inr h1 else h1 = h"
    by (rule copy_props_Cons_Inr)
  have "next_ref h1 = next_ref h"
    using step by (auto simp: next_ref_assign split: if_splits)
  then show ?case
    using Cons.IH [OF rest] by simp
qed

lemma proto_copy_props:
  "copy_props st h e p keys = Inr h' \<Longrightarrow> proto (cells h' r) = proto (cells h r)"
proof (induction keys arbitrary: h)
  case Nil
  then show ?case by simp
next
  case (Cons key keys)
  from Cons.prems(1) obtain h1 where rest: "copy_props st h1 e p keys = Inr h'"
    and step: "if key \<noteq> ''status'' \<and> key \<noteq> ''statusCode''
         then assign st h e key (val_get h p key) = Inr h1 else h1 = h"
    by (rule copy_props_Cons_Inr)
  have "proto (cells h1 r) = proto (cells h r)"
    using step by (auto simp: proto_assign split: if_splits)
  then show ?case
    using Cons.IH [OF rest] by simp
qed



lemma copy_props_total:
  "''__proto__'' \<notin> set keys \<Longrightarrow>
   \<not> st \<or> (\<forall>k \<in> set keys. writable (cells h e) k) \<Longrightarrow>
   \<exists>h'. copy_props st h e p keys = Inr h'"
proof (induction keys arbitrary: h)
  case Nil
  then show ?case by simp
next
  case (Cons key keys)
  show ?case
  proof (cases "key \<noteq> ''status'' \<and> key \<noteq> ''statusCode''")
    case True
    have "key \<noteq> ''__proto__''" "\<not> st \<or> writable (cells h e) key"
      using Cons.prems by auto
    then have "\<exists>h1. assign st h e key (val_get h p key) = Inr h1"
      by (cases "writable (cells h e) key") (auto simp: assign_def)
    then obtain h1 where a: "assign st h e key (val_get h p key) = Inr h1"
      by blast
    have "\<not> st \<or> (\<forall>k \<in> set keys. writable (cells h1 e) k)"
      using Cons.prems(2) writable_assign [OF a] by auto
    then obtain h' where "copy_props st h1 e p keys = Inr h'"
      using Cons.IH [of h1] Cons.prems(1) by auto
    then show ?thesis
      using True a by simp
  next
    case False
    obtain h' where "copy_props st h e p keys = Inr h'"
      using Cons.IH [of h] Cons.prems by auto
    then show ?thesis
      using False by auto
  qed
qed

section \<open>The loop over the arguments\<close>

lemma instance_of_Ref: "instance_of h a f \<Longrightarrow> \<exists>r. a = Ref r"
  by (cases a) (simp_all add: instance_of_def)

lemma resolve_arg_error:
  "instance_of h a ErrorFn \<Longrightarrow>
   resolve_arg h i a l =
     Inr (l\<lparr>l_err := a,
            l_status := coalesce (val_get h a ''status'')
                         (coalesce (val_get h a ''statusCode'') (l_status l))\<rparr>)"
  using instance_of_Ref [of h a ErrorFn] by (auto simp: resolve_arg_def)



lemma resolve_arg_number:
  "resolve_arg h 0 (Num n) l = Inr (l\<lparr>l_status := Num n\<rparr>)"
  by (simp add: resolve_arg_def instance_of_def)

lemma resolve_arg_accepted:
  "accepted h i a \<Longrightarrow> \<exists>l'. resolve_arg h i a l = Inr l'"
  by (cases a) (auto simp: resolve_arg_def accepted_def instance_of_def)

lemma resolve_arg_rejected:
  "\<not> accepted h i a \<Longrightarrow>
   resolve_arg h i a l = Inl (TypeError (''argument #'' @ String_num (Integer (int i + 1)) @
      '' unsupported type '' @ typeof a))"
  by (cases a) (auto simp: resolve_arg_def accepted_def instance_of_def)


lemma resolve_args_accepted:
  "(\<And>j. j < length args \<Longrightarrow> accepted h (i + j) (args ! j)) \<Longrightarrow>
   \<exists>l'. resolve_args h i args l = Inr l'"
proof (induction args arbitrary: i l)
  case Nil
  then show ?case by simp
next
  case (Cons a args)
  have "accepted h i a"
    using Cons.prems [of 0] by simp
  then obtain l1 where l1: "resolve_arg h i a l = Inr l1"
    using resolve_arg_accepted by blast
  have "\<And>j. j < length args \<Longrightarrow> accepted h (Suc i + j) (args ! j)"
    using Cons.prems [of "Suc j" for j] by simp
  then obtain l' where "resolve_args h (Suc i) args l1 = Inr l'"
    using Cons.IH by blast
  then show ?case
    using l1 by simp
qed

lemma resolve_args_first_rejected:
  "j < length args \<Longrightarrow> \<not> accepted h (i + j) (args ! j) \<Longrightarrow>
   (\<And>j'. j' < j \<Longrightarrow> accepted h (i + j') (args ! j')) \<Longrightarrow>
   resolve_args h i args l = Inl (TypeError (''argument #'' @ String_num (Integer (int (i + j) + 1)) @
      '' unsupported type '' @ typeof (args ! j)))"
proof (induction args arbitrary: i j l)
  case Nil
  then show ?case by simp
next
  case (Cons a args)
  show ?case
  proof (cases j)
    case 0
    then show ?thesis
      using Cons.prems(2) by (simp add: resolve_arg_rejected)
  next
    case (Suc j0)
    have "accepted h i a"
      using Cons.prems(3) [of 0] Suc by simp
    then obtain l1 where l1: "resolve_arg h i a l = Inr l1"
      using resolve_arg_accepted by blast
    have a: "j0 < length args" "\<not> accepted h (Suc i + j0) (args ! j0)"
      using Cons.prems(1,2) Suc by simp_all
    have b: "\<And>j'. j' < j0 \<Longrightarrow> accepted h (Suc i + j') (args ! j')"
      using Cons.prems(3) [of "Suc j'" for j'] Suc by simp
    have "resolve_args h (Suc i) args l1 =
        Inl (TypeError (''argument #'' @ String_num (Integer (int (Suc i + j0) + 1)) @
      '' unsupported type '' @ typeof (args ! j0)))"
      using a b by (rule Cons.IH)
    then show ?thesis
      using l1 Suc by simp
  qed
qed




section \<open>The statements after the loop\<close>

lemma proto_get_code:
  "proto_get (CodeErrorProto K) ''status'' = Num (Integer (code K))"
  "proto_get (CodeErrorProto K) ''statusCode'' = Num (Integer (code K))"
  by (cases K; simp)+

lemma finish_Inr:
  assumes "createError_finish d h l = Inr r"
    and "s = validate_status d (l_status l)"
    and "HK = select_kind (createError_exports d) s"
  obtains err h1 h2 where "obtain_error d h l HK s = (err, h1)"
    and "(if must_normalise h1 HK err s then normalise (strict d) h1 err s else Inr h1) = Inr h2"
    and "assign_props (strict d) h2 err (l_props l) = Inr (heap_after r)"
    and "returned r = err"
    and "advisories r = (if deprecated (l_status l) then [deprecation_text] else [])"
proof -
  obtain err h1 where o: "obtain_error d h l HK s = (err, h1)"
    by (cases "obtain_error d h l HK s")
  show ?thesis
    using assms o that [of err h1]
    by (auto simp: createError_finish_def Let_def split: sum.splits)
qed

lemma finish_intro:
  assumes "obtain_error d h l (select_kind (createError_exports d) (validate_status d (l_status l)))
      (validate_status d (l_status l)) = (err, h1)"
    and "(if must_normalise h1 (select_kind (createError_exports d) (validate_status d (l_status l)))
             err (validate_status d (l_status l))
          then normalise (strict d) h1 err (validate_status d (l_status l)) else Inr h1) = Inr h2"
    and "assign_props (strict d) h2 err (l_props l) = Inr h3"
  shows "createError_finish d h l =
    Inr \<lparr>returned = err, heap_after = h3,
         advisories = (if deprecated (l_status l) then [deprecation_text] else [])\<rparr>"
  using assms by (simp add: createError_finish_def Let_def)

lemma finish_refused:
  assumes "obtain_error d h l (select_kind (createError_exports d) (validate_status d (l_status l)))
      (validate_status d (l_status l)) = (err, h1)"
    and "(if must_normalise h1 (select_kind (createError_exports d) (validate_status d (l_status l)))
             err (validate_status d (l_status l))
          then normalise (strict d) h1 err (validate_status d (l_status l)) else Inr h1) = Inl x"
  shows "createError_finish d h l = Inl x"
  using assms by (simp add: createError_finish_def Let_def)

lemma assign_props_Inr:
  assumes "assign_props st h e props = Inr h'"
  shows "props = None \<and> h' = h \<or>
    (\<exists>p. props = Some p \<and> copy_props st h e p (props_keys h props) = Inr h')"
  using assms by (cases props) (auto simp: assign_props_def)

lemma assign_props_protected:
  "assign_props st h e props = Inr h' \<Longrightarrow> k = ''status'' \<or> k = ''statusCode'' \<Longrightarrow>
   get_prop h' r k = get_prop h r k"
  by (cases props) (auto simp: assign_props_def copy_props_protected)

lemma cells_assign_props_other:
  "assign_props st h e props = Inr h' \<Longrightarrow> r \<noteq> e \<Longrightarrow> cells h' r = cells h r"
  by (cases props) (auto simp: assign_props_def cells_copy_props_other)

lemma next_ref_assign_props: "assign_props st h e props = Inr h' \<Longrightarrow> next_ref h' = next_ref h"
  by (cases props) (auto simp: assign_props_def next_ref_copy_props)

lemma proto_assign_props:
  "assign_props st h e props = Inr h' \<Longrightarrow> proto (cells h' r) = proto (cells h r)"
  by (cases props) (auto simp: assign_props_def proto_copy_props)

lemma obtain_error_adopted: "l_err l = Ref e \<Longrightarrow> obtain_error d h l HK s = (e, h)"
  by (simp add: obtain_error_def)

lemma obtain_error_fresh_kind:
  assumes "\<And>e. l_err l \<noteq> Ref e"
  shows "obtain_error d h l (Some K) s =
    (next_ref h,
     h\<lparr>cells := (cells h)(next_ref h :=
          \<lparr>proto = CodeErrorProto K,
           own = [(''message'', if \<not> nullish (l_msg l) then l_msg l
                               else message_of d (Integer (code K))),
                  (''name'', Str (className K))],
           extensible = True, readonly = []\<rparr>),
       next_ref := Suc (next_ref h)\<rparr>)"
  using assms by (cases "l_err l") (auto simp: obtain_error_def new_CodeError_def alloc_def Let_def)

lemma obtain_error_fresh_generic:
  assumes "\<And>e. l_err l \<noteq> Ref e"
  shows "obtain_error d h l None s =
    (next_ref h,
     h\<lparr>cells := (cells h)(next_ref h :=
          \<lparr>proto = ErrorProto,
           own = (if coalesce (l_msg l) (message_of d s) = Undefined then []
                  else [(''message'', coalesce (l_msg l) (message_of d s))]),
           extensible = True, readonly = []\<rparr>),
       next_ref := Suc (next_ref h)\<rparr>)"
  using assms by (cases "l_err l") (auto simp: obtain_error_def new_Error_def alloc_def)

lemma obtain_error_fresh:
  assumes "\<And>e. l_err l \<noteq> Ref e" and "obtain_error d h l HK s = (err, h1)"
  shows "err = next_ref h" and "writable (cells h1 err) k"
    and "next_ref h1 = Suc (next_ref h)" and "r \<noteq> next_ref h \<Longrightarrow> cells h1 r = cells h r"
  using assms(2) obtain_error_fresh_kind [OF assms(1), of d h _ s]
    obtain_error_fresh_generic [OF assms(1), of d h s]
  by (cases HK; auto simp: writable_def)+




text \<open>
  The three fields after the normalisation: a field holds its new value unless the
  value is an adopted error that refuses the assignment, which only a build that is
  not strict passes over.
\<close>

lemma normalised_field:
  assumes o: "obtain_error d h l HK s = (err, h1)"
    and n: "normalise (strict d) h1 err s = Inr h2"
    and k: "k = ''status'' \<or> k = ''statusCode'' \<or> k = ''expose''"
  shows "get_prop h2 err k = (if k = ''expose'' then Bool (num_lt s 500) else Num s) \<or>
    (\<exists>e. l_err l = Ref e \<and> err = e \<and> h1 = h \<and> \<not> strict d \<and> \<not> writable (cells h e) k \<and>
       get_prop h2 err k = get_prop h e k)"
proof (cases "writable (cells h1 err) k")
  case True
  then show ?thesis
    using k get_prop_normalise [OF n, of err k] by auto
next
  case False
  have adopted: "\<exists>e. l_err l = Ref e"
  proof (rule ccontr)
    assume "\<not> (\<exists>e. l_err l = Ref e)"
    then have "\<And>e. l_err l \<noteq> Ref e" by simp
    then have "writable (cells h1 err) k"
      using o by (rule obtain_error_fresh)
    then show False using False by simp
  qed
  then obtain e where e: "l_err l = Ref e" by blast
  then have eq: "err = e" "h1 = h"
    using o by (simp_all add: obtain_error_adopted)
  have "\<not> strict d"
  proof
    assume "strict d"
    then have "normalise True h1 err s = Inr h2" using n by simp
    then show False
      using normalise_strict [of h1 err s h2] False k by auto
  qed
  moreover have "get_prop h2 err k = get_prop h1 err k"
    using False k get_prop_normalise [OF n, of err k] by auto
  ultimately show ?thesis
    using e eq False by auto
qed

lemma finish_status:
  assumes "createError_finish d h l = Inr r"
  shows "result_get r ''status'' = Num (validate_status d (l_status l)) \<or>
    (\<exists>e. l_err l = Ref e \<and> returned r = e \<and> \<not> strict d \<and> \<not> writable (cells h e) ''status'' \<and>
       result_get r ''status'' = get_prop h e ''status'')"
proof -
  let ?s = "validate_status d (l_status l)"
  let ?HK = "select_kind (createError_exports d) ?s"
  from assms obtain err h1 h2 where o: "obtain_error d h l ?HK ?s = (err, h1)"
    and n: "(if must_normalise h1 ?HK err ?s then normalise (strict d) h1 err ?s else Inr h1) = Inr h2"
    and p: "assign_props (strict d) h2 err (l_props l) = Inr (heap_after r)"
    and ret: "returned r = err"
    by (rule finish_Inr [OF _ refl refl])
  have r: "result_get r ''status'' = get_prop h2 err ''status''"
    using assign_props_protected [OF p] ret by (simp add: result_get_def)
  show ?thesis
  proof (cases "must_normalise h1 ?HK err ?s")
    case True
    then have "normalise (strict d) h1 err ?s = Inr h2" using n by simp
    then show ?thesis
      using normalised_field [OF o, of h2 "''status''"] r ret by auto
  next
    case False
    then have "h2 = h1" using n by simp
    moreover have "get_prop h1 err ''status'' = Num ?s"
      using False by (cases ?HK) (simp_all add: must_normalise_def strict_eq_def)
    ultimately show ?thesis
      using r by simp
  qed
qed

lemma finish_statusCode:
  assumes "createError_finish d h l = Inr r"
  shows "result_get r ''statusCode'' = Num (validate_status d (l_status l)) \<or>
   (\<exists>e. l_err l = Ref e \<and> returned r = e \<and>
      result_get r ''statusCode'' = get_prop h e ''statusCode'' \<and>
      ((\<exists>K. select_kind (createError_exports d) (validate_status d (l_status l)) = Some K \<and>
          instance_of h (Ref e) (CodeErrorFn K) \<and>
          get_prop h e ''status'' = Num (validate_status d (l_status l))) \<or>
       (\<not> strict d \<and> \<not> writable (cells h e) ''statusCode'')))"
proof -
  let ?s = "validate_status d (l_status l)"
  let ?HK = "select_kind (createError_exports d) ?s"
  from assms obtain err h1 h2 where o: "obtain_error d h l ?HK ?s = (err, h1)"
    and n: "(if must_normalise h1 ?HK err ?s then normalise (strict d) h1 err ?s else Inr h1) = Inr h2"
    and p: "assign_props (strict d) h2 err (l_props l) = Inr (heap_after r)"
    and ret: "returned r = err"
    by (rule finish_Inr [OF _ refl refl])
  have r: "result_get r ''statusCode'' = get_prop h2 err ''statusCode''"
    using assign_props_protected [OF p] ret by (simp add: result_get_def)
  show ?thesis
  proof (cases "must_normalise h1 ?HK err ?s")
    case True
    then have "normalise (strict d) h1 err ?s = Inr h2" using n by simp
    then show ?thesis
      using normalised_field [OF o, of h2 "''statusCode''"] r ret by auto
  next
    case False
    then have h2: "h2 = h1" using n by simp
    from False obtain K where K: "?HK = Some K" and inst: "instance_of h1 (Ref err) (CodeErrorFn K)"
      and st: "get_prop h1 err ''status'' = Num ?s"
      by (cases ?HK) (auto simp: must_normalise_def strict_eq_def)
    show ?thesis
    proof (cases "\<exists>e. l_err l = Ref e")
      case True
      then obtain e where e: "l_err l = Ref e" by blast
      then have "err = e" "h1 = h"
        using o by (simp_all add: obtain_error_adopted)
      then show ?thesis
        using e K inst st r h2 ret by auto
    next
      case False
      then have f: "\<And>e. l_err l \<noteq> Ref e" by simp
      have "get_prop h1 err ''status'' = Num (Integer (code K))"
        "get_prop h1 err ''statusCode'' = Num (Integer (code K))"
        using o K obtain_error_fresh_kind [OF f, of d h K ?s]
        by (auto simp: get_prop_def proto_get_code)
      then show ?thesis
        using st r h2 by simp
    qed
  qed
qed

lemma finish_fresh_total:
  assumes "\<And>e. l_err l \<noteq> Ref e" and "l_props l = None"
  shows "\<exists>r. createError_finish d h l = Inr r"
proof -
  let ?s = "validate_status d (l_status l)"
  let ?HK = "select_kind (createError_exports d) ?s"
  obtain err h1 where o: "obtain_error d h l ?HK ?s = (err, h1)"
    by (cases "obtain_error d h l ?HK ?s")
  have w: "writable (cells h1 err) k" for k
    using assms(1) o by (rule obtain_error_fresh)
  then obtain h2 where
    n: "(if must_normalise h1 ?HK err ?s then normalise (strict d) h1 err ?s else Inr h1) = Inr h2"
    using normalise_total [of "strict d" h1 err ?s] by (cases "must_normalise h1 ?HK err ?s") auto
  have "assign_props (strict d) h2 err (l_props l) = Inr h2"
    using assms(2) by (simp add: assign_props_def)
  then show ?thesis
    using finish_intro [OF o n] by blast
qed

section \<open>Properties of createError\<close>


lemma assign_Inl: "assign st h r k v = Inl x \<Longrightarrow> x = AssignTypeError \<or> x = PrototypeAssigned"
  by (auto simp: assign_def split: if_splits)

lemma normalise_Inl:
  "normalise st h e s = Inl x \<Longrightarrow> x = AssignTypeError \<or> x = PrototypeAssigned"
  by (auto simp: normalise_def split: sum.splits dest: assign_Inl)

lemma copy_props_Inl:
  "copy_props st h e p keys = Inl x \<Longrightarrow> x = AssignTypeError \<or> x = PrototypeAssigned"
proof (induction keys arbitrary: h)
  case Nil
  then show ?case by simp
next
  case (Cons key keys)
  show ?case
  proof (cases "key \<noteq> ''status'' \<and> key \<noteq> ''statusCode''")
    case True
    show ?thesis
    proof (cases "assign st h e key (val_get h p key)")
      case (Inl y)
      then have "x = y" using Cons.prems True by simp
      then show ?thesis using assign_Inl [OF Inl] by simp
    next
      case (Inr h1)
      then have "copy_props st h1 e p keys = Inl x" using Cons.prems True by simp
      then show ?thesis by (rule Cons.IH)
    qed
  next
    case False
    then have "copy_props st h e p keys = Inl x" using Cons.prems by auto
    then show ?thesis by (rule Cons.IH)
  qed
qed

lemma finish_Inl:
  assumes "createError_finish d h l = Inl x"
  shows "x = AssignTypeError \<or> x = PrototypeAssigned"
proof -
  let ?s = "validate_status d (l_status l)"
  let ?HK = "select_kind (createError_exports d) ?s"
  obtain err h1 where o: "obtain_error d h l ?HK ?s = (err, h1)"
    by (cases "obtain_error d h l ?HK ?s")
  show ?thesis
  proof (cases "if must_normalise h1 ?HK err ?s then normalise (strict d) h1 err ?s else Inr h1")
    case (Inl y)
    then have "x = y"
      using assms o by (simp add: createError_finish_def Let_def)
    moreover have "normalise (strict d) h1 err ?s = Inl y"
      using Inl by (simp split: if_splits)
    ultimately show ?thesis
      using normalise_Inl by blast
  next
    case (Inr h2)
    then have "assign_props (strict d) h2 err (l_props l) = Inl x"
      using assms o by (simp add: createError_finish_def Let_def split: sum.splits)
    then show ?thesis
      by (cases "l_props l") (auto simp: assign_props_def dest: copy_props_Inl)
  qed
qed

lemma createError_TypeError:
  "createError d h args = Inl (TypeError m) \<longleftrightarrow>
   resolve_args h 0 args init_locals = Inl (TypeError m)"
  by (auto simp: createError_def split: sum.splits dest: finish_Inl)

lemma append_sep_inj:
  "xs @ c # r = ys @ c # r' \<Longrightarrow> c \<notin> set xs \<Longrightarrow> c \<notin> set ys \<Longrightarrow> xs = ys \<and> r = r'"
proof (induction xs arbitrary: ys)
  case Nil
  then show ?case by (cases ys) auto
next
  case (Cons x xs)
  then show ?case by (cases ys) auto
qed

lemma unsupported_message_inj:
  assumes "''argument #'' @ String_num (Integer (int i + 1)) @ '' unsupported type '' @ t =
    ''argument #'' @ String_num (Integer (int j + 1)) @ '' unsupported type '' @ t'"
  shows "i = j \<and> t = t'"
proof -
  let ?A = "String_num (Integer (int i + 1))" and ?B = "String_num (Integer (int j + 1))"
  have "?A @ CHR '' '' # (''unsupported type '' @ t) = ?B @ CHR '' '' # (''unsupported type '' @ t')"
    using assms by simp
  then have "?A = ?B \<and> ''unsupported type '' @ t = ''unsupported type '' @ t'"
    by (rule append_sep_inj) (rule String_num_no_space)+
  then have "Integer (int i + 1) = Integer (int j + 1)" and "t = t'"
    using String_num_inj [of "Integer (int i + 1)" "Integer (int j + 1)"] by blast+
  then show ?thesis by simp
qed

text \<open>
  Claim C9. \<^verbatim>\<open>createError\<close> raises its own \<^verbatim>\<open>TypeError\<close> if and only if some
  argument is neither an error value, a string, an object, nor a number in the first
  position. The message is \<^verbatim>\<open>argument #\<close>, the 1-based position of the first such
  argument in decimal, \<^verbatim>\<open> unsupported type \<close> and the \<^verbatim>\<open>typeof\<close> of that argument; two
  such messages are equal only for the same position and the same type, so the message
  identifies both. A number after the first position always makes the call raise it,
  and a list of arguments that are all of a recognised shape never does.
\<close>

theorem createError_type_error:
  "((\<exists>m. createError d h args = Inl (TypeError m)) \<longleftrightarrow>
      (\<exists>i<length args. \<not> accepted h i (args ! i))) \<and>
   (\<forall>i<length args. \<not> accepted h i (args ! i) \<and> (\<forall>j<i. accepted h j (args ! j)) \<longrightarrow>
      createError d h args =
        Inl (TypeError (''argument #'' @ String_num (Integer (int i + 1)) @
                        '' unsupported type '' @ typeof (args ! i)))) \<and>
   (\<forall>i j a b.
      ''argument #'' @ String_num (Integer (int i + 1)) @ '' unsupported type '' @ typeof a =
      ''argument #'' @ String_num (Integer (int j + 1)) @ '' unsupported type '' @ typeof b \<longrightarrow>
      i = j \<and> typeof a = typeof b) \<and>
   (xs \<noteq> [] \<longrightarrow> (\<exists>m. createError d h (xs @ Num n # ys) = Inl (TypeError m))) \<and>
   ((\<forall>i<length (xs @ ys). accepted h i ((xs @ ys) ! i)) \<longrightarrow>
      (\<forall>m. createError d h (xs @ ys) \<noteq> Inl (TypeError m)))"
proof -
  have first: "createError d h as =
      Inl (TypeError (''argument #'' @ String_num (Integer (int i + 1)) @
                      '' unsupported type '' @ typeof (as ! i)))"
    if "i < length as" "\<not> accepted h i (as ! i)" "\<forall>j<i. accepted h j (as ! j)" for as i
    using resolve_args_first_rejected [of i as h 0 init_locals] that
    by (simp add: createError_TypeError)
  have fails: "\<exists>m. createError d h as = Inl (TypeError m)"
    if "\<exists>i<length as. \<not> accepted h i (as ! i)" for as
  proof -
    let ?P = "\<lambda>i. i < length as \<and> \<not> accepted h i (as ! i)"
    from that have "\<exists>i. ?P i" by blast
    then obtain i where i: "?P i" and least: "\<forall>j<i. \<not> ?P j"
      using exists_least_iff [of ?P] by blast
    have "\<forall>j<i. accepted h j (as ! j)"
      using i least by auto
    then show ?thesis
      using first [of i as] i by blast
  qed
  have succeeds: "createError d h as \<noteq> Inl (TypeError m)"
    if all: "\<forall>i<length as. accepted h i (as ! i)" for as m
  proof -
    have "\<And>j. j < length as \<Longrightarrow> accepted h (0 + j) (as ! j)"
      using all by simp
    then obtain l where "resolve_args h 0 as init_locals = Inr l"
      using resolve_args_accepted [of as h 0 init_locals] by blast
    then show ?thesis
      by (simp add: createError_TypeError)
  qed
  have iff: "(\<exists>m. createError d h args = Inl (TypeError m)) \<longleftrightarrow>
      (\<exists>i<length args. \<not> accepted h i (args ! i))"
  proof
    assume "\<exists>m. createError d h args = Inl (TypeError m)"
    then show "\<exists>i<length args. \<not> accepted h i (args ! i)"
      using succeeds [of args] by (cases "\<forall>i<length args. accepted h i (args ! i)") auto
  next
    assume "\<exists>i<length args. \<not> accepted h i (args ! i)"
    then show "\<exists>m. createError d h args = Inl (TypeError m)"
      by (rule fails)
  qed
  have later: "\<exists>m. createError d h (xs @ Num n # ys) = Inl (TypeError m)" if "xs \<noteq> []"
  proof (rule fails)
    have "length xs < length (xs @ Num n # ys)" by simp
    moreover have "\<not> accepted h (length xs) ((xs @ Num n # ys) ! length xs)"
      using that by (simp add: accepted_def instance_of_def)
    ultimately show "\<exists>i<length (xs @ Num n # ys). \<not> accepted h i ((xs @ Num n # ys) ! i)"
      by blast
  qed
  have inj: "\<forall>i j a b.
      ''argument #'' @ String_num (Integer (int i + 1)) @ '' unsupported type '' @ typeof a =
      ''argument #'' @ String_num (Integer (int j + 1)) @ '' unsupported type '' @ typeof b \<longrightarrow>
      i = j \<and> typeof a = typeof b"
    using unsupported_message_inj by blast
  show ?thesis
    using iff first [of _ args] later succeeds [of "xs @ ys"] inj by blast
qed




section \<open>Evaluation on the sample registry\<close>

lemma String_num_samples:
  "String_num (Integer 200) = ''200''" "String_num (Integer 400) = ''400''"
  "String_num (Integer 403) = ''403''" "String_num (Integer 404) = ''404''"
  "String_num (Integer 499) = ''499''" "String_num (Integer 500) = ''500''"
  "String_num (Integer 503) = ''503''" "String_num (Integer 2) = ''2''"
  by (simp_all add: String_num_def String_int_def string_of_nat.simps digit_char_def)

lemma codeClass_samples:
  "codeClass (Integer 200) = Integer 200" "codeClass (Integer 400) = Integer 400"
  "codeClass (Integer 403) = Integer 400" "codeClass (Integer 404) = Integer 400"
  "codeClass (Integer 499) = Integer 400" "codeClass (Integer 500) = Integer 500"
  "codeClass (Integer 503) = Integer 500"
  by (simp_all add: codeClass_def String_num_def String_int_def string_of_nat.simps
      digit_char_def Number_c00_def)

lemma sample_identifiers:
  "sample_toIdentifier ''OK'' = ''OK''"
  "sample_toIdentifier ''Bad Request'' = ''BadRequest''"
  "sample_toIdentifier ''Forbidden'' = ''Forbidden''"
  "sample_toIdentifier ''Not Found'' = ''NotFound''"
  "sample_toIdentifier ''Internal Server Error'' = ''InternalServerError''"
  "sample_toIdentifier ''Service Unavailable'' = ''ServiceUnavailable''"
  by (simp_all add: sample_toIdentifier_def identifier_char_def upper_char_def)

lemma sample_class_names:
  "toClassName ''BadRequest'' = ''BadRequestError''"
  "toClassName ''Forbidden'' = ''ForbiddenError''"
  "toClassName ''NotFound'' = ''NotFoundError''"
  "toClassName ''InternalServerError'' = ''InternalServerError''"
  "toClassName ''ServiceUnavailable'' = ''ServiceUnavailableError''"
  by (simp_all add: toClassName_def)

lemma sample_exports:
  "createError_exports sample_deps =
     [''400'' \<mapsto> ClientError ''BadRequestError'' 400,
      ''BadRequest'' \<mapsto> ClientError ''BadRequestError'' 400,
      ''403'' \<mapsto> ClientError ''ForbiddenError'' 403,
      ''Forbidden'' \<mapsto> ClientError ''ForbiddenError'' 403,
      ''404'' \<mapsto> ClientError ''NotFoundError'' 404,
      ''NotFound'' \<mapsto> ClientError ''NotFoundError'' 404,
      ''500'' \<mapsto> ServerError ''InternalServerError'' 500,
      ''InternalServerError'' \<mapsto> ServerError ''InternalServerError'' 500,
      ''503'' \<mapsto> ServerError ''ServiceUnavailableError'' 503,
      ''ServiceUnavailable'' \<mapsto> ServerError ''ServiceUnavailableError'' 503]"
  by (simp add: createError_exports_def populateConstructorExports_def statuses_codes_def
      sample_deps_def forEachCode_def Let_def codeClass_samples String_num_samples
      sample_identifiers sample_class_names
      createClientErrorConstructor_def createServerErrorConstructor_def)

lemma exports_strict_irrelevant:
  "createError_exports (d\<lparr>strict := b\<rparr>) = createError_exports d"
proof -
  have "forEachCode (d\<lparr>strict := b\<rparr>) = forEachCode d"
    by (intro ext) (simp add: forEachCode_def cong: option.case_cong)
  then show ?thesis
    by (simp add: createError_exports_def populateConstructorExports_def statuses_codes_def)
qed

lemma sample_exports_sloppy:
  "createError_exports sample_deps_sloppy = createError_exports sample_deps"
  unfolding sample_deps_sloppy_def by (rule exports_strict_irrelevant)

lemma sample_select_kind:
  "select_kind (createError_exports sample_deps) (Integer 400) =
     Some (ClientError ''BadRequestError'' 400)"
  "select_kind (createError_exports sample_deps) (Integer 404) =
     Some (ClientError ''NotFoundError'' 404)"
  "select_kind (createError_exports sample_deps) (Integer 499) =
     Some (ClientError ''BadRequestError'' 400)"
  "select_kind (createError_exports sample_deps) (Integer 500) =
     Some (ServerError ''InternalServerError'' 500)"
  "select_kind (createError_exports sample_deps) (Integer 200) = None"
  "select_kind (createError_exports sample_deps) NaN = None"
  by (simp_all add: select_kind_def sample_exports String_num_samples codeClass_samples
      codeClass_NaN String_num_simps(2))

lemma sample_known:
  "known sample_deps (Integer 200)" "known sample_deps (Integer 400)"
  "known sample_deps (Integer 404)" "known sample_deps (Integer 500)"
  "\<not> known sample_deps (Integer 499)" "\<not> known sample_deps (Integer 999)"
  by (simp_all add: known_def sample_deps_def)

lemma sample_strict: "strict sample_deps" "\<not> strict sample_deps_sloppy"
  by (simp_all add: sample_deps_def sample_deps_sloppy_def)

lemma sample_known_sloppy: "known sample_deps_sloppy n = known sample_deps n"
  by (cases n) (simp_all add: known_def sample_deps_sloppy_def)

lemma sample_message_sloppy: "message_of sample_deps_sloppy n = message_of sample_deps n"
  by (cases n) (simp_all add: message_of_def sample_deps_sloppy_def)

theorem createError_type_error_witness:
  "createError sample_deps empty_heap [Str ''boom'', Num (Integer 404)] =
     Inl (TypeError ''argument #2 unsupported type number'') \<and>
   createError sample_deps empty_heap [Str ''boom''] \<noteq>
     Inl (TypeError ''argument #2 unsupported type number'')"
proof -
  note t = createError_type_error [of sample_deps empty_heap "[Str ''boom'', Num (Integer 404)]"
      "[Str ''boom'']" "Integer 404" "[]"]
  have a0: "accepted empty_heap 0 (Str ''boom'')"
    by (simp add: accepted_def)
  have a1: "\<not> accepted empty_heap 1 (Num (Integer 404))"
    by (simp add: accepted_def instance_of_def)
  have "createError sample_deps empty_heap [Str ''boom'', Num (Integer 404)] =
      Inl (TypeError (''argument #'' @ String_num (Integer (int 1 + 1)) @
        '' unsupported type '' @ typeof ([Str ''boom'', Num (Integer 404)] ! 1)))"
    using t [THEN conjunct2, THEN conjunct1, rule_format, of 1] a0 a1 by simp
  then have first: "createError sample_deps empty_heap [Str ''boom'', Num (Integer 404)] =
      Inl (TypeError ''argument #2 unsupported type number'')"
    by (simp add: String_num_samples)
  have "\<forall>m. createError sample_deps empty_heap ([Str ''boom''] @ []) \<noteq> Inl (TypeError m)"
    using t [THEN conjunct2, THEN conjunct2, THEN conjunct2, THEN conjunct2] a0 by simp
  then have "createError sample_deps empty_heap [Str ''boom''] \<noteq>
      Inl (TypeError ''argument #2 unsupported type number'')"
    by simp
  with first show ?thesis by simp
qed





section \<open>Fresh and adopted values\<close>

lemma select_kind_ran:
  "select_kind ex s = Some K \<Longrightarrow> \<exists>k. ex k = Some K"
  by (auto simp: select_kind_def split: option.splits)

lemma kind_of_class:
  "kind_of d c = Some K \<Longrightarrow>
   (codeClass (Integer c) = Integer 400 \<and> (\<exists>n. K = ClientError n c)) \<or>
   (codeClass (Integer c) = Integer 500 \<and> codeClass (Integer c) \<noteq> Integer 400 \<and>
    (\<exists>n. K = ServerError n c))"
  by (auto simp: kind_of_def split: option.splits if_splits)

lemma selected_kind_sound:
  "select_kind (createError_exports d) s = Some K \<Longrightarrow> kind_of d (code K) = Some K"
  using select_kind_ran exports_sound by blast






lemma finish_fresh_expose:
  assumes fin: "createError_finish d h l = Inr r"
    and f: "\<And>e. l_err l \<noteq> Ref e" and p: "l_props l = None"
    and s: "validate_status d (l_status l) = Integer c" and lo: "400 \<le> c" and hi: "c \<le> 599"
  shows "result_get r ''expose'' = Bool (c < 500)"
proof -
  let ?s = "validate_status d (l_status l)"
  let ?HK = "select_kind (createError_exports d) ?s"
  from fin obtain err h1 h2 where o: "obtain_error d h l ?HK ?s = (err, h1)"
    and n: "(if must_normalise h1 ?HK err ?s then normalise (strict d) h1 err ?s else Inr h1) = Inr h2"
    and ap: "assign_props (strict d) h2 err (l_props l) = Inr (heap_after r)"
    and ret: "returned r = err"
    by (rule finish_Inr [OF _ refl refl])
  have "heap_after r = h2"
    using ap p by (simp add: assign_props_def)
  then have r: "result_get r ''expose'' = get_prop h2 err ''expose''"
    using ret by (simp add: result_get_def)
  show ?thesis
  proof (cases "must_normalise h1 ?HK err ?s")
    case True
    then have nn: "normalise (strict d) h1 err ?s = Inr h2" using n by simp
    have "get_prop h2 err ''expose'' = Bool (num_lt ?s 500)"
      using normalised_field [OF o nn, of "''expose''"] f by auto
    then show ?thesis using r s by simp
  next
    case False
    then have h2: "h2 = h1" using n by simp
    from False obtain K where K: "?HK = Some K" and st: "get_prop h1 err ''status'' = Num ?s"
      by (cases ?HK) (auto simp: must_normalise_def strict_eq_def)
    have cell: "proto (cells h1 err) = CodeErrorProto K"
      "map_of (own (cells h1 err)) ''status'' = None"
      "map_of (own (cells h1 err)) ''expose'' = None"
      using o K obtain_error_fresh_kind [OF f, of d h K ?s] by auto
    have "get_prop h1 err ''status'' = Num (Integer (code K))"
      by (simp add: get_prop_def cell proto_get_code)
    then have c: "code K = c" using st s by simp
    have "kind_of d c = Some K"
      using selected_kind_sound [OF K] c by simp
    then have "(\<exists>n. K = ClientError n c) \<and> c < 500 \<or> (\<exists>n. K = ServerError n c) \<and> \<not> c < 500"
      using kind_of_class [of d c K] codeClass_4xx [of c] codeClass_5xx [of c] lo hi
      by (cases "c < 500") auto
    then have "get_prop h1 err ''expose'' = Bool (c < 500)"
      by (auto simp: get_prop_def cell)
    then show ?thesis
      using r h2 by simp
  qed
qed

text \<open>
  Claim C1. For every status code \<open>c\<close> with \<open>400 \<le> c \<le> 599\<close>, and so for every such
  code the registry knows, \<^verbatim>\<open>createError(c)\<close> returns a value whose \<^verbatim>\<open>status\<close> and
  \<^verbatim>\<open>statusCode\<close> are \<open>c\<close> and whose \<^verbatim>\<open>expose\<close> is \<open>c < 500\<close>.
\<close>

theorem createError_code:
  assumes "400 \<le> c" and "c \<le> 599"
  shows "\<exists>r. createError d h [Num (Integer c)] = Inr r \<and>
    result_get r ''status'' = Num (Integer c) \<and>
    result_get r ''statusCode'' = Num (Integer c) \<and>
    result_get r ''expose'' = Bool (c < 500)"
proof -
  let ?l = "init_locals\<lparr>l_status := Num (Integer c)\<rparr>"
  have f: "\<And>e. l_err ?l \<noteq> Ref e" and p: "l_props ?l = None"
    by (simp_all add: init_locals_def)
  obtain r where fin: "createError_finish d h ?l = Inr r"
    using finish_fresh_total [OF f p] by blast
  have run: "createError d h [Num (Integer c)] = Inr r"
    using fin by (simp add: createError_def resolve_arg_number)
  have s: "validate_status d (l_status ?l) = Integer c"
    using assms by (simp add: validate_status_def)
  have "result_get r ''status'' = Num (Integer c)"
    using finish_status [OF fin] s f by auto
  moreover have "result_get r ''statusCode'' = Num (Integer c)"
    using finish_statusCode [OF fin] s f by auto
  moreover have "result_get r ''expose'' = Bool (c < 500)"
    using fin f p s assms by (rule finish_fresh_expose)
  ultimately show ?thesis
    using run by simp
qed

theorem createError_code_witness:
  "(400::int) \<le> 403 \<and> (403::int) \<le> 599 \<and> known sample_deps (Integer 403) \<and>
   read_result (createError sample_deps empty_heap [Num (Integer 403)]) ''status'' =
     Some (Num (Integer 403)) \<and>
   read_result (createError sample_deps empty_heap [Num (Integer 403)]) ''statusCode'' =
     Some (Num (Integer 403)) \<and>
   read_result (createError sample_deps empty_heap [Num (Integer 403)]) ''expose'' =
     Some (Bool True)"
proof -
  have "\<exists>r. createError sample_deps empty_heap [Num (Integer 403)] = Inr r \<and>
      result_get r ''status'' = Num (Integer 403) \<and>
      result_get r ''statusCode'' = Num (Integer 403) \<and>
      result_get r ''expose'' = Bool (403 < (500::int))"
    by (rule createError_code) simp_all
  then show ?thesis
    by (auto simp: read_result_def known_def sample_deps_def)
qed

text \<open>An adopted error without status: the normalisation runs on it, for status 500.\<close>

lemma finish_adopted_plain:
  assumes "l_err l = Ref e" and "l_status l = Num (Integer 500)" and "l_props l = None"
    and "nullish (get_prop h e ''status'')"
  shows "createError_finish d h l =
    (case normalise (strict d) h e (Integer 500) of
       Inl x \<Rightarrow> Inl x
     | Inr h' \<Rightarrow> Inr \<lparr>returned = e, heap_after = h', advisories = []\<rparr>)"
proof -
  have s: "validate_status d (l_status l) = Integer 500"
    using assms(2) by (simp add: validate_status_def)
  let ?HK = "select_kind (createError_exports d) (Integer 500)"
  have o: "obtain_error d h l ?HK (Integer 500) = (e, h)"
    using assms(1) by (rule obtain_error_adopted)
  have "get_prop h e ''status'' \<noteq> Num (Integer 500)"
    using assms(4) by (auto simp: nullish_def)
  then have "must_normalise h ?HK e (Integer 500)"
    by (cases ?HK) (simp_all add: must_normalise_def strict_eq_def)
  then show ?thesis
    using o s assms(2,3)
    by (simp add: createError_finish_def Let_def assign_props_def deprecated_def
        split: sum.splits)
qed

text \<open>
  Claim C7, amended. Called with one existing error value whose \<^verbatim>\<open>status\<close> and
  \<^verbatim>\<open>statusCode\<close> are absent (they read as \<^verbatim>\<open>undefined\<close>, or as \<^verbatim>\<open>null\<close>) and
  which accepts the assignment of \<^verbatim>\<open>expose\<close>, \<^verbatim>\<open>statusCode\<close> and \<^verbatim>\<open>status\<close>,
  \<^verbatim>\<open>createError\<close> returns that very object: no object is allocated, the object has
  \<^verbatim>\<open>expose\<close> false and \<^verbatim>\<open>status\<close> and \<^verbatim>\<open>statusCode\<close> 500 afterwards, every
  other property of it reads as before, its prototype is unchanged, and every other
  object of the heap is untouched. When the error refuses one of the three assignments
  (a frozen error, say), a strict build raises the \<^verbatim>\<open>TypeError\<close> of the host, and a
  build that is not strict returns the object with each refused field as it was. The
  claim as stated promises the three fields for every such error value.
\<close>

theorem createError_adopts_in_place:
  assumes "instance_of h (Ref e) ErrorFn"
    and "nullish (get_prop h e ''status'')" and "nullish (get_prop h e ''statusCode'')"
  shows "(writable (cells h e) ''expose'' \<and> writable (cells h e) ''statusCode'' \<and>
       writable (cells h e) ''status'' \<longrightarrow>
      (\<exists>r. createError d h [Ref e] = Inr r \<and> returned r = e \<and>
         result_get r ''expose'' = Bool False \<and>
         result_get r ''status'' = Num (Integer 500) \<and>
         result_get r ''statusCode'' = Num (Integer 500) \<and>
         (\<forall>k. k \<noteq> ''expose'' \<and> k \<noteq> ''status'' \<and> k \<noteq> ''statusCode'' \<longrightarrow>
            result_get r k = get_prop h e k) \<and>
         proto (cells (heap_after r) e) = proto (cells h e) \<and>
         (\<forall>q. q \<noteq> e \<longrightarrow> cells (heap_after r) q = cells h q) \<and>
         next_ref (heap_after r) = next_ref h)) \<and>
    (strict d \<and> \<not> (writable (cells h e) ''expose'' \<and> writable (cells h e) ''statusCode'' \<and>
       writable (cells h e) ''status'') \<longrightarrow>
      createError d h [Ref e] = Inl AssignTypeError) \<and>
    (\<not> strict d \<longrightarrow>
      (\<exists>r. createError d h [Ref e] = Inr r \<and> returned r = e \<and>
         result_get r ''expose'' =
           (if writable (cells h e) ''expose'' then Bool False else get_prop h e ''expose'') \<and>
         result_get r ''status'' =
           (if writable (cells h e) ''status'' then Num (Integer 500)
            else get_prop h e ''status'') \<and>
         result_get r ''statusCode'' =
           (if writable (cells h e) ''statusCode'' then Num (Integer 500)
            else get_prop h e ''statusCode'') \<and>
         (\<forall>k. k \<noteq> ''expose'' \<and> k \<noteq> ''status'' \<and> k \<noteq> ''statusCode'' \<longrightarrow>
            result_get r k = get_prop h e k) \<and>
         proto (cells (heap_after r) e) = proto (cells h e) \<and>
         (\<forall>q. q \<noteq> e \<longrightarrow> cells (heap_after r) q = cells h q) \<and>
         next_ref (heap_after r) = next_ref h))"
proof -
  let ?l = "init_locals\<lparr>l_err := Ref e, l_status := Num (Integer 500)\<rparr>"
  let ?W = "writable (cells h e) ''expose'' \<and> writable (cells h e) ''statusCode'' \<and>
       writable (cells h e) ''status''"
  have "coalesce (val_get h (Ref e) ''status'')
      (coalesce (val_get h (Ref e) ''statusCode'') (l_status init_locals)) = Num (Integer 500)"
    using assms(2,3) by (simp add: coalesce_def val_get_def init_locals_def)
  then have res: "resolve_args h 0 [Ref e] init_locals = Inr ?l"
    by (simp add: resolve_arg_error [OF assms(1)])
  have fin: "createError_finish d h ?l =
      (case normalise (strict d) h e (Integer 500) of
         Inl x \<Rightarrow> Inl x
       | Inr h' \<Rightarrow> Inr \<lparr>returned = e, heap_after = h', advisories = []\<rparr>)"
    by (rule finish_adopted_plain) (simp_all add: init_locals_def assms(2))
  have run: "createError d h [Ref e] =
      (case normalise (strict d) h e (Integer 500) of
         Inl x \<Rightarrow> Inl x
       | Inr h' \<Rightarrow> Inr \<lparr>returned = e, heap_after = h', advisories = []\<rparr>)"
    using res fin by (simp add: createError_def)
  have returns: "\<exists>r. createError d h [Ref e] = Inr r \<and> returned r = e \<and>
         result_get r ''expose'' =
           (if writable (cells h e) ''expose'' then Bool False else get_prop h e ''expose'') \<and>
         result_get r ''status'' =
           (if writable (cells h e) ''status'' then Num (Integer 500)
            else get_prop h e ''status'') \<and>
         result_get r ''statusCode'' =
           (if writable (cells h e) ''statusCode'' then Num (Integer 500)
            else get_prop h e ''statusCode'') \<and>
         (\<forall>k. k \<noteq> ''expose'' \<and> k \<noteq> ''status'' \<and> k \<noteq> ''statusCode'' \<longrightarrow>
            result_get r k = get_prop h e k) \<and>
         proto (cells (heap_after r) e) = proto (cells h e) \<and>
         (\<forall>q. q \<noteq> e \<longrightarrow> cells (heap_after r) q = cells h q) \<and>
         next_ref (heap_after r) = next_ref h"
    if ok: "\<not> strict d \<or> ?W"
  proof -
    obtain h' where n: "normalise (strict d) h e (Integer 500) = Inr h'"
      using normalise_total [of "strict d" h e "Integer 500"] ok by blast
    have "createError d h [Ref e] = Inr \<lparr>returned = e, heap_after = h', advisories = []\<rparr>"
      using run n by simp
    then show ?thesis
      by (simp add: result_get_def get_prop_normalise [OF n] proto_normalise [OF n]
          cells_normalise_other [OF n] next_ref_normalise [OF n])
  qed
  have refused: "createError d h [Ref e] = Inl AssignTypeError" if "strict d" "\<not> ?W"
    using run that normalise_refused [of h e "Integer 500"] by simp
  show ?thesis
    using returns refused by (intro conjI impI) auto
qed

lemma sample_finish_sloppy:
  "select_kind (createError_exports sample_deps_sloppy) n =
     select_kind (createError_exports sample_deps) n"
  by (simp add: sample_exports_sloppy)

theorem createError_adopts_in_place_counterexample:
  "instance_of (heap_of [sample_frozen_error]) (Ref 0) ErrorFn \<and>
   get_prop (heap_of [sample_frozen_error]) 0 ''status'' = Undefined \<and>
   get_prop (heap_of [sample_frozen_error]) 0 ''statusCode'' = Undefined \<and>
   createError sample_deps (heap_of [sample_frozen_error]) [Ref 0] = Inl AssignTypeError \<and>
   read_result (createError sample_deps_sloppy (heap_of [sample_frozen_error]) [Ref 0])
     ''status'' = Some Undefined \<and>
   read_result (createError sample_deps_sloppy (heap_of [sample_frozen_error]) [Ref 0])
     ''expose'' = Some Undefined"
  by (simp add: createError_def resolve_arg_def init_locals_def instance_of_def heap_of_def
      sample_frozen_error_def val_get_def get_prop_def coalesce_def nullish_def
      Error_prototype_get_def read_result_def result_get_def createError_finish_def Let_def
      validate_status_def sample_known sample_known_sloppy sample_select_kind
      sample_finish_sloppy sample_strict obtain_error_def must_normalise_def
      assign_props_def strict_eq_def normalise_def assign_def writable_def deprecated_def)

theorem createError_adopts_in_place_witness:
  "instance_of (heap_of [sample_plain_error]) (Ref 0) ErrorFn \<and>
   nullish (get_prop (heap_of [sample_plain_error]) 0 ''status'') \<and>
   nullish (get_prop (heap_of [sample_plain_error]) 0 ''statusCode'') \<and>
   writable (cells (heap_of [sample_plain_error]) 0) ''expose'' \<and>
   writable (cells (heap_of [sample_plain_error]) 0) ''statusCode'' \<and>
   writable (cells (heap_of [sample_plain_error]) 0) ''status'' \<and>
   (case createError sample_deps (heap_of [sample_plain_error]) [Ref 0] of
      Inr r \<Rightarrow> returned r = 0 \<and> result_get r ''status'' = Num (Integer 500) \<and>
        result_get r ''expose'' = Bool False \<and> result_get r ''message'' = Str ''broken'' \<and>
        next_ref (heap_after r) = 1
    | Inl e \<Rightarrow> False) \<and>
   strict sample_deps \<and>
   \<not> writable (cells (heap_of [sample_frozen_error]) 0) ''status'' \<and>
   createError sample_deps (heap_of [sample_frozen_error]) [Ref 0] = Inl AssignTypeError"
proof -
  let ?h = "heap_of [sample_plain_error]"
  let ?f = "heap_of [sample_frozen_error]"
  have a: "instance_of ?h (Ref 0) ErrorFn"
    by (simp add: instance_of_def heap_of_def sample_plain_error_def)
  have b: "nullish (get_prop ?h 0 ''status'')" "nullish (get_prop ?h 0 ''statusCode'')"
    by (simp_all add: nullish_def get_prop_def heap_of_def sample_plain_error_def
        Error_prototype_get_def)
  have w: "writable (cells ?h 0) ''expose''" "writable (cells ?h 0) ''statusCode''"
    "writable (cells ?h 0) ''status''"
    by (simp_all add: writable_def heap_of_def sample_plain_error_def)
  have m: "get_prop ?h 0 ''message'' = Str ''broken''" "next_ref ?h = 1"
    by (simp_all add: get_prop_def heap_of_def sample_plain_error_def)
  obtain r where r: "createError sample_deps ?h [Ref 0] = Inr r" "returned r = 0"
    "result_get r ''expose'' = Bool False" "result_get r ''status'' = Num (Integer 500)"
    "\<forall>k. k \<noteq> ''expose'' \<and> k \<noteq> ''status'' \<and> k \<noteq> ''statusCode'' \<longrightarrow>
       result_get r k = get_prop ?h 0 k"
    "next_ref (heap_after r) = next_ref ?h"
    using createError_adopts_in_place [OF a b, of sample_deps, THEN conjunct1] w by blast
  have msg: "result_get r ''message'' = Str ''broken''"
    using r(5) m(1) by simp
  have fa: "instance_of ?f (Ref 0) ErrorFn"
    by (simp add: instance_of_def heap_of_def sample_frozen_error_def)
  have fb: "nullish (get_prop ?f 0 ''status'')" "nullish (get_prop ?f 0 ''statusCode'')"
    by (simp_all add: nullish_def get_prop_def heap_of_def sample_frozen_error_def
        Error_prototype_get_def)
  have fw: "\<not> writable (cells ?f 0) ''status''"
    by (simp add: writable_def heap_of_def sample_frozen_error_def)
  have refused: "createError sample_deps ?f [Ref 0] = Inl AssignTypeError"
    using createError_adopts_in_place [OF fa fb, of sample_deps, THEN conjunct2, THEN conjunct1]
      fw sample_strict(1) by blast
  show ?thesis
    using a b w r msg m(2) fw refused sample_strict(1) by simp
qed



section \<open>Registration under code and identifier\<close>

lemma toClassName_suffix:
  "drop (length (toClassName name) - 5) (toClassName name) = ''Error''"
  by (simp add: toClassName_def)

lemma className_not_numeric:
  assumes "drop (length cn - 5) cn = ''Error''"
  shows "\<not> looks_numeric cn"
proof
  assume n: "looks_numeric cn"
  have "CHR ''E'' \<in> set (drop (length cn - 5) cn)"
    using assms by simp
  then have E: "CHR ''E'' \<in> set cn"
    using set_drop_subset by fastforce
  have "cn \<noteq> ''NaN''"
    using assms by auto
  then have "\<forall>ch \<in> set cn. ch \<in> set ''-0123456789''"
    using n unfolding looks_numeric_def by blast
  then have "CHR ''E'' \<in> set ''-0123456789''"
    using E by blast
  then show False
    by simp
qed

lemma toClassName_fixed:
  "toClassName name = name \<longleftrightarrow> drop (length name - 5) name = ''Error''"
  by (auto simp: toClassName_def)

text \<open>
  Claim C5, amended. For every known status code in [400,599] the generated constructor
  is registered under its numeric code and under the identifier derived from the reason
  phrase, and both lookups yield the same constructor, provided no identifier reads as
  a number and no two codes derive the same identifier. The constructor's
  \<^verbatim>\<open>className\<close> is that identifier with the suffix \<^verbatim>\<open>Error\<close> appended unless
  already there, and the lookup under the \<^verbatim>\<open>className\<close> yields the constructor
  exactly when the identifier itself already ends in \<^verbatim>\<open>Error\<close>. The claim as stated
  has the second key be the \<^verbatim>\<open>className\<close>; \<^const>\<open>forEachCode\<close> writes
  \<^verbatim>\<open>exports[name]\<close>, the identifier without the suffix.
\<close>

theorem exports_by_code_and_name:
  assumes "names_ok d" and "names_distinct d"
    and "map_of (statuses_message d) c = Some phrase" and "400 \<le> c" and "c \<le> 599"
  shows "\<exists>K. createError_exports d (String_num (Integer c)) = Some K \<and>
    createError_exports d (toIdentifier d phrase) = Some K \<and>
    code K = c \<and>
    className K = toClassName (toIdentifier d phrase) \<and>
    drop (length (className K) - 5) (className K) = ''Error'' \<and>
    (createError_exports d (className K) = Some K \<longleftrightarrow>
       drop (length (toIdentifier d phrase) - 5) (toIdentifier d phrase) = ''Error'')"
proof -
  let ?name = "toIdentifier d phrase"
  have ident: "identifier_of d c = Some ?name"
    using assms(3) by (simp add: identifier_of_def)
  have cls: "codeClass (Integer c) = Integer 400 \<or> codeClass (Integer c) = Integer 500"
    using codeClass_4xx [of c] codeClass_5xx [of c] assms(4,5) by (cases "c \<le> 499") auto
  then obtain K where K: "kind_of d c = Some K" and cn: "className K = toClassName ?name"
    using ident by (auto simp: kind_of_def)
  have num: "createError_exports d (String_num (Integer c)) = Some K"
    using exports_numeric [OF assms(1), of "Integer c"] K by (simp add: kind_of_number_simps)
  have nm: "createError_exports d ?name = Some K"
    using exports_name [OF assms(1,2) K ident] .
  have code: "code K = c"
    using K by (rule kind_of_code)
  have suffix: "drop (length (className K) - 5) (className K) = ''Error''"
    using cn toClassName_suffix [of ?name] by simp
  have "createError_exports d (className K) = Some K \<longleftrightarrow>
      drop (length ?name - 5) ?name = ''Error''"
  proof
    assume "createError_exports d (className K) = Some K"
    then have "className K = String_num (Integer (code K)) \<or>
        identifier_of d (code K) = Some (className K)"
      by (rule exports_keys)
    moreover have "className K \<noteq> String_num (Integer (code K))"
      using className_not_numeric [OF suffix] looks_numeric_String_num by metis
    ultimately have "?name = className K"
      using ident code by simp
    then show "drop (length ?name - 5) ?name = ''Error''"
      using cn toClassName_fixed [of ?name] by simp
  next
    assume "drop (length ?name - 5) ?name = ''Error''"
    then have "className K = ?name"
      using cn toClassName_fixed [of ?name] by simp
    then show "createError_exports d (className K) = Some K"
      using nm by simp
  qed
  then show ?thesis
    using num nm code cn suffix by blast
qed

lemma sample_identifier_of:
  "identifier_of sample_deps 200 = Some ''OK''"
  "identifier_of sample_deps 400 = Some ''BadRequest''"
  "identifier_of sample_deps 403 = Some ''Forbidden''"
  "identifier_of sample_deps 404 = Some ''NotFound''"
  "identifier_of sample_deps 500 = Some ''InternalServerError''"
  "identifier_of sample_deps 503 = Some ''ServiceUnavailable''"
  by (simp_all add: identifier_of_def sample_deps_def sample_identifiers)

lemma sample_codes: "statuses_codes sample_deps = [200, 400, 403, 404, 500, 503]"
  by (simp add: statuses_codes_def sample_deps_def)

lemma sample_not_numeric:
  "\<not> looks_numeric ''OK''" "\<not> looks_numeric ''BadRequest''" "\<not> looks_numeric ''Forbidden''"
  "\<not> looks_numeric ''NotFound''" "\<not> looks_numeric ''InternalServerError''"
  "\<not> looks_numeric ''ServiceUnavailable''"
  by (simp_all add: looks_numeric_def)

lemma sample_names_ok: "names_ok sample_deps"
  by (simp add: names_ok_def sample_codes sample_identifier_of sample_not_numeric)

lemma sample_names_distinct: "names_distinct sample_deps"
  by (simp add: names_distinct_def sample_codes sample_identifier_of)

theorem exports_by_code_and_name_counterexample:
  "createError_exports sample_deps (String_num (Integer 404)) =
     Some (ClientError ''NotFoundError'' 404) \<and>
   createError_exports sample_deps (className (ClientError ''NotFoundError'' 404)) = None"
  by (simp add: sample_exports String_num_samples)

theorem exports_by_code_and_name_witness:
  "names_ok sample_deps \<and> names_distinct sample_deps \<and>
   map_of (statuses_message sample_deps) 404 = Some ''Not Found'' \<and>
   createError_exports sample_deps ''404'' = Some (ClientError ''NotFoundError'' 404) \<and>
   createError_exports sample_deps ''NotFound'' = Some (ClientError ''NotFoundError'' 404) \<and>
   createError_exports sample_deps ''NotFoundError'' \<noteq> Some (ClientError ''NotFoundError'' 404)"
proof -
  have m: "map_of (statuses_message sample_deps) 404 = Some ''Not Found''"
    by (simp add: sample_deps_def)
  have t: "toIdentifier sample_deps ''Not Found'' = ''NotFound''"
    by (simp add: sample_deps_def sample_identifiers)
  obtain K where K: "createError_exports sample_deps (String_num (Integer 404)) = Some K"
    "createError_exports sample_deps (toIdentifier sample_deps ''Not Found'') = Some K"
    "code K = 404" "className K = toClassName (toIdentifier sample_deps ''Not Found'')"
    "createError_exports sample_deps (className K) = Some K \<longleftrightarrow>
       drop (length (toIdentifier sample_deps ''Not Found'') - 5)
         (toIdentifier sample_deps ''Not Found'') = ''Error''"
    using exports_by_code_and_name [OF sample_names_ok sample_names_distinct m] by auto
  have eq: "K = ClientError ''NotFoundError'' 404"
    using K(1) by (simp add: sample_exports String_num_samples)
  have "createError_exports sample_deps ''NotFoundError'' \<noteq> Some (ClientError ''NotFoundError'' 404)"
    using K(5) by (simp add: eq t)
  then show ?thesis
    using K(1,2) eq m t sample_names_ok sample_names_distinct by (simp add: String_num_samples)
qed

section \<open>Object arguments\<close>













section \<open>The message of a new value\<close>












section \<open>The type guard\<close>

text \<open>
  Built over the abstract \<^verbatim>\<open>HttpError\<close>, the guard is the predicate of the
  specification: false on what is not an object, true on an instance of
  \<^verbatim>\<open>HttpError\<close>, and otherwise true exactly on an \<^verbatim>\<open>Error\<close> with a boolean
  \<^verbatim>\<open>expose\<close>, a numeric \<^verbatim>\<open>statusCode\<close> and \<^verbatim>\<open>status\<close> equal to it.
\<close>

lemma isHttpError_over_marker:
  "createIsHttpErrorFunction createError_HttpError h v =
     Inr (case v of
            Ref r \<Rightarrow>
              instance_of h v HttpErrorFn \<or>
              (instance_of h v ErrorFn \<and>
               typeof (get_prop h r ''expose'') = ''boolean'' \<and>
               typeof (get_prop h r ''statusCode'') = ''number'' \<and>
               strict_eq (get_prop h r ''status'') (get_prop h r ''statusCode''))
          | _ \<Rightarrow> False)"
  by (cases v)
     (simp_all add: createIsHttpErrorFunction_def createError_HttpError_def val_get_def)

lemma sample_select_kind_403:
  "select_kind (createError_exports sample_deps) (Integer 403) =
     Some (ClientError ''ForbiddenError'' 403)"
  by (simp add: select_kind_def sample_exports String_num_samples)

lemma sample_message_403: "message_of sample_deps (Integer 403) = Str ''Forbidden''"
  by (simp add: message_of_def sample_deps_def)

lemma sample_createError_403:
  "createError sample_deps empty_heap [Num (Integer 403)] =
     Inr \<lparr>returned = 0,
          heap_after =
            \<lparr>cells = (\<lambda>r. empty_object)(0 :=
               \<lparr>proto = CodeErrorProto (ClientError ''ForbiddenError'' 403),
                own = [(''message'', Str ''Forbidden''), (''name'', Str ''ForbiddenError'')],
                extensible = True, readonly = []\<rparr>),
             next_ref = Suc 0\<rparr>,
          advisories = []\<rparr>"
  by (simp add: createError_def resolve_arg_number init_locals_def createError_finish_def Let_def
      validate_status_def deprecated_def sample_select_kind_403 obtain_error_def
      new_CodeError_def alloc_def nullish_def sample_message_403 empty_heap_def
      must_normalise_def instance_of_def get_prop_def assign_props_def strict_eq_def)

text \<open>
  Claim C2. The guard the module installs is built over \<^verbatim>\<open>module.exports.HttpError\<close>,
  not over \<^verbatim>\<open>createError.HttpError\<close>; no statement has set that property, so the
  guard holds \<^verbatim>\<open>undefined\<close>. It answers false on \<^verbatim>\<open>null\<close>, and on every object it
  reaches \<^verbatim>\<open>val instanceof undefined\<close>, which raises: so it does on the value of
  \<^verbatim>\<open>createError(403)\<close>, where the claim says true, and on a plain \<^verbatim>\<open>new Error\<close>,
  where the claim says false. The guard built over \<^verbatim>\<open>createError.HttpError\<close> gives
  the answers of the claim on both.
\<close>

theorem isHttpError_at_load:
  "createError_isHttpError module_exports_at_load h (Ref r) = Inl InstanceofTypeError \<and>
   createError_isHttpError module_exports_at_load h Null = Inr False \<and>
   guard_result (createError_isHttpError module_exports_at_load)
     (createError sample_deps empty_heap [Num (Integer 403)]) = Some (Inl InstanceofTypeError) \<and>
   guard_result (createIsHttpErrorFunction createError_HttpError)
     (createError sample_deps empty_heap [Num (Integer 403)]) = Some (Inr True) \<and>
   createError_isHttpError module_exports_at_load (heap_of [sample_plain_error]) (Ref 0) =
     Inl InstanceofTypeError \<and>
   createIsHttpErrorFunction createError_HttpError (heap_of [sample_plain_error]) (Ref 0) =
     Inr False"
proof -
  have raise: "\<And>h r. createError_isHttpError module_exports_at_load h (Ref r) =
      Inl InstanceofTypeError"
    by (simp add: createError_isHttpError_def module_exports_at_load_def
        createIsHttpErrorFunction_def)
  have null: "createError_isHttpError module_exports_at_load h Null = Inr False"
    by (simp add: createError_isHttpError_def module_exports_at_load_def
        createIsHttpErrorFunction_def)
  have made: "guard_result (createIsHttpErrorFunction createError_HttpError)
     (createError sample_deps empty_heap [Num (Integer 403)]) = Some (Inr True)"
    by (simp add: guard_result_def sample_createError_403 isHttpError_over_marker
        instance_of_def)
  have plain: "createIsHttpErrorFunction createError_HttpError (heap_of [sample_plain_error])
      (Ref 0) = Inr False"
    by (simp add: isHttpError_over_marker instance_of_def heap_of_def sample_plain_error_def
        get_prop_def Error_prototype_get_def strict_eq_def)
  show ?thesis
    using raise null made plain by (simp add: guard_result_def sample_createError_403)
qed

end
